theory Spec2Isabelle
  imports Complex_Main "HOL-Library.Word" "HOL-Library.Sublist"
begin

section \<open>Python values shared by the whole module\<close>

text \<open>
  Exceptions of \<^verbatim>\<open>ppo_utils.py\<close> are values: every function that can raise returns
  \<open>error + 'a\<close>, with \<open>Inl\<close> for the exception. \<open>RemoteError\<close> stands for whatever the
  Triton client raises (transport or server failure).
\<close>

datatype error =
    AssertionError
  | ValueError
  | NotImplementedError
  | IndexError
  | RuntimeError
  | TypeError
  | UnboundLocalError
  | RemoteError string

text \<open>Python slice bounds: a negative bound counts from the end, and both are clamped.\<close>

definition py_index :: "nat \<Rightarrow> int \<Rightarrow> nat" where
  "py_index n i = (if i < 0 then nat (max 0 (int n + i)) else min (nat i) n)"

definition py_slice :: "'a list \<Rightarrow> int \<Rightarrow> int \<Rightarrow> 'a list" where
  \<comment> \<open>\<^verbatim>\<open>xs[a:b]\<close>\<close>
  "py_slice xs a b =
     (let lo = py_index (length xs) a; hi = py_index (length xs) b
      in take (hi - lo) (drop lo xs))"

definition py_slice_to :: "'a list \<Rightarrow> int \<Rightarrow> 'a list" where
  \<comment> \<open>\<^verbatim>\<open>xs[:b]\<close>\<close>
  "py_slice_to xs b = take (py_index (length xs) b) xs"

definition py_slice_from :: "'a list \<Rightarrow> int \<Rightarrow> 'a list" where
  \<comment> \<open>\<^verbatim>\<open>xs[a:]\<close>\<close>
  "py_slice_from xs a = drop (py_index (length xs) a) xs"

text \<open>\<^verbatim>\<open>str.split(sep)\<close> for a one-character separator: never an empty list.\<close>

fun split_on :: "char \<Rightarrow> string \<Rightarrow> string list" where
  "split_on c [] = [[]]"
| "split_on c (x # xs) =
     (if x = c then [] # split_on c xs
      else (case split_on c xs of
              [] \<Rightarrow> [[x]]
            | r # rs \<Rightarrow> (x # r) # rs))"

section \<open>The trainer's tokenizer and configuration\<close>

text \<open>
  The fields of the HuggingFace tokenizer that the module reads. Ids and the end marker
  are \<open>None\<close> when the tokenizer has no such token. \<open>tok_decode\<close> is
  \<^verbatim>\<open>tokenizer.decode(ids, skip_special_tokens=False)\<close> and \<open>tok_encode\<close> is
  \<^verbatim>\<open>tokenizer(text).input_ids\<close>; both belong to the library and are fields of the
  record, so that a theorem holds for every tokenizer.
\<close>

record tokenizer =
  pad_token_id :: "int option"
  eos_token_id :: "int option"
  eos_token :: "string option"
  tok_decode :: "int list \<Rightarrow> string"
  tok_encode :: "string \<Rightarrow> int list"

text \<open>
  The configuration values the rollout reads: \<^verbatim>\<open>config.model.model_arch_type\<close>,
  \<^verbatim>\<open>config.method.scale_reward\<close> and \<^verbatim>\<open>config.method.cliprange_reward\<close> (the last two
  may be \<^verbatim>\<open>None\<close>).
\<close>

record config =
  model_arch_type :: string
  scale_reward :: "string option"
  cliprange_reward :: "real option"

section \<open>\<^verbatim>\<open>CustomPPOTrainer.decode\<close>\<close>

text \<open>
  \<^verbatim>\<open>str.find(sub)\<close>: the lowest index at which \<open>sub\<close> starts, \<open>-1\<close> when it does not
  occur.
\<close>

fun str_find :: "string \<Rightarrow> string \<Rightarrow> int" where
  "str_find [] sub = (if sub = [] then 0 else - 1)"
| "str_find (c # s) sub =
     (if prefix sub (c # s) then 0
      else (let r = str_find s sub in if r < 0 then - 1 else r + 1))"

text \<open>
  \<^verbatim>\<open>str.rstrip()\<close> removes trailing whitespace. Strings are byte lists here, so only the
  ASCII whitespace of Python is covered: tab, line feed, vertical tab, form feed,
  carriage return, the four separators \<open>0x1C\<close> to \<open>0x1F\<close>, and space.
\<close>

definition is_space :: "char \<Rightarrow> bool" where
  "is_space c =
     (c \<in> set [CHR 0x09, CHR 0x0A, CHR 0x0B, CHR 0x0C, CHR 0x0D,
                CHR 0x1C, CHR 0x1D, CHR 0x1E, CHR 0x1F, CHR 0x20])"

definition rstrip :: "string \<Rightarrow> string" where
  "rstrip s = rev (dropWhile is_space (rev s))"

text \<open>
  The loop \<^verbatim>\<open>for stop in self.stop_sequences\<close>: every stop string is searched in the
  text as the earlier stop strings left it. An empty or missing list of stop sequences
  runs no iteration.
\<close>

fun trim_stops :: "string list \<Rightarrow> string \<Rightarrow> bool \<Rightarrow> string \<times> bool" where
  "trim_stops [] str_output trimmed = (str_output, trimmed)"
| "trim_stops (stop # stops) str_output trimmed =
     (let stop_ix = str_find str_output stop in
      if stop_ix \<ge> 0
      then trim_stops stops (rstrip (py_slice_to str_output stop_ix)) True
      else trim_stops stops str_output trimmed)"

text \<open>
  \<^verbatim>\<open>if append_eos_token and (trimmed or sample[-1] != self.tokenizer.eos_token_id):
      str_output += self.tokenizer.eos_token\<close>
  \<^verbatim>\<open>sample[-1]\<close> is only read when \<open>trimmed\<close> is false and raises on an empty sample;
  adding \<^verbatim>\<open>None\<close> to a string raises \<open>TypeError\<close>.
\<close>

definition append_eos ::
  "tokenizer \<Rightarrow> bool \<Rightarrow> bool \<Rightarrow> int list \<Rightarrow> string \<Rightarrow> error + string" where
  "append_eos tk append_eos_token trimmed sample str_output =
     (if \<not> append_eos_token then Inr str_output
      else if trimmed then
        (case eos_token tk of None \<Rightarrow> Inl TypeError | Some e \<Rightarrow> Inr (str_output @ e))
      else if sample = [] then Inl IndexError
      else if Some (last sample) \<noteq> eos_token_id tk then
        (case eos_token tk of None \<Rightarrow> Inl TypeError | Some e \<Rightarrow> Inr (str_output @ e))
      else Inr str_output)"

text \<open>
  One iteration of the loop of \<^verbatim>\<open>decode\<close>, returning the triple
  (sample text, prompt text, output text) that the iteration appends to the three
  lists. The sequence-to-sequence branch raises first; the later
  \<^verbatim>\<open>str_prompt + sep_token + str_output\<close> of that architecture is therefore never reached.
\<close>

definition decode_one ::
  "config \<Rightarrow> tokenizer \<Rightarrow> string list \<Rightarrow> bool \<Rightarrow> int list \<Rightarrow> int list \<Rightarrow> int \<Rightarrow>
   error + (string \<times> string \<times> string)" where
  "decode_one cfg tk stop_sequences append_eos_token prompt sample prompt_size =
     (if model_arch_type cfg = ''seq2seq'' then Inl NotImplementedError
      else
        (let output_start_ix = prompt_size;
             PAD_TOKEN_ID = pad_token_id tk;
             str_prompt = tok_decode tk
               (filter (\<lambda>t. Some t \<noteq> PAD_TOKEN_ID) (py_slice_to prompt prompt_size));
             str_output = tok_decode tk
               (filter (\<lambda>t. Some t \<noteq> PAD_TOKEN_ID) (py_slice_from sample output_start_ix));
             (str_output, trimmed) = trim_stops stop_sequences str_output False
         in case append_eos tk append_eos_token trimmed sample str_output of
              Inl e \<Rightarrow> Inl e
            | Inr str_output \<Rightarrow> Inr (str_prompt @ str_output, str_prompt, str_output)))"

text \<open>The loop over \<^verbatim>\<open>zip(prompts, samples, prompt_sizes)\<close>; the first exception ends it.\<close>

fun decode_loop ::
  "config \<Rightarrow> tokenizer \<Rightarrow> string list \<Rightarrow> bool \<Rightarrow> (int list \<times> int list \<times> int) list \<Rightarrow>
   string list \<times> string list \<times> string list \<Rightarrow>
   error + (string list \<times> string list \<times> string list)" where
  "decode_loop cfg tk stop_sequences append_eos_token [] acc = Inr acc"
| "decode_loop cfg tk stop_sequences append_eos_token ((prompt, sample, prompt_size) # rest)
     (str_samples, str_prompts, str_outputs) =
     (case decode_one cfg tk stop_sequences append_eos_token prompt sample prompt_size of
        Inl e \<Rightarrow> Inl e
      | Inr (sample_text, str_prompt, str_output) \<Rightarrow>
          decode_loop cfg tk stop_sequences append_eos_token rest
            (str_samples @ [sample_text], str_prompts @ [str_prompt],
             str_outputs @ [str_output]))"

text \<open>\<^verbatim>\<open>tensor.shape[1]\<close> of a batch given as its list of rows.\<close>

definition shape1 :: "'a list list \<Rightarrow> int" where
  "shape1 rows = (case rows of [] \<Rightarrow> 0 | r # _ \<Rightarrow> int (length r))"

text \<open>
  \<^verbatim>\<open>decode(prompts, samples, prompt_sizes=None, append_eos_token=True)\<close>, returning
  \<^verbatim>\<open>(str_samples, str_prompts, str_outputs)\<close>.
\<close>

definition decode ::
  "config \<Rightarrow> tokenizer \<Rightarrow> string list \<Rightarrow> int list list \<Rightarrow> int list list \<Rightarrow>
   int list option \<Rightarrow> bool \<Rightarrow> error + (string list \<times> string list \<times> string list)" where
  "decode cfg tk stop_sequences prompts samples prompt_sizes append_eos_token =
     (if \<not> append_eos_token then Inl AssertionError
      else
        (let prompt_sizes =
               (case prompt_sizes of
                  None \<Rightarrow> replicate (length prompts) (shape1 prompts)
                | Some sizes \<Rightarrow> sizes)
         in decode_loop cfg tk stop_sequences append_eos_token
              (zip prompts (zip samples prompt_sizes)) ([], [], [])))"

text \<open>\<^verbatim>\<open>get_arch\<close>: \<open>from_pretrained\<close> is the loader of the policy model, a parameter.\<close>

definition get_arch :: "config \<Rightarrow> tokenizer \<Rightarrow> (tokenizer \<Rightarrow> 'm) \<Rightarrow> error + 'm" where
  "get_arch cfg tk from_pretrained =
     (if model_arch_type cfg = ''seq2seq'' then Inl NotImplementedError
      else Inr (from_pretrained tk))"


section \<open>The remote reference scorer: \<^verbatim>\<open>triton_server_ref_model\<close>\<close>

record client =
  url :: string
  model_name :: string

text \<open>
  \<^verbatim>\<open>triton_server_ref_model\<close> up to the closure it returns: the environment is a map
  from variable names to values; the tuple assignment
  \<^verbatim>\<open>triton_url, triton_model = triton_host.split("/")\<close> raises \<open>ValueError\<close> unless the
  split has exactly two parts.
\<close>

definition triton_server_ref_model :: "(string \<rightharpoonup> string) \<Rightarrow> error + client" where
  "triton_server_ref_model environ =
     (case environ ''TRITON_HOST_REF'' of
        None \<Rightarrow> Inl AssertionError
      | Some triton_host \<Rightarrow>
          (case split_on CHR ''/'' triton_host of
             [triton_url, triton_model] \<Rightarrow>
               Inr \<lparr>url = triton_url, model_name = triton_model\<rparr>
           | _ \<Rightarrow> Inl ValueError))"

text \<open>\<^verbatim>\<open>ndarray.astype(np.int32)\<close> on 64-bit token ids keeps the low 32 bits, signed.\<close>

definition astype_int32 :: "int \<Rightarrow> int" where
  "astype_int32 x = sint (word_of_int x :: 32 word)"

definition mbs :: nat where
  "mbs = 8"

text \<open>\<^verbatim>\<open>math.ceil(len(all_tokens) / mbs)\<close>\<close>

definition num_chunks :: "nat \<Rightarrow> nat" where
  "num_chunks n = nat \<lceil>real n / real mbs\<rceil>"

text \<open>
  \<^verbatim>\<open>batch_ixs = slice(i * mbs, (i + 1) * mbs)\<close> and \<^verbatim>\<open>xs[batch_ixs].astype(np.int32)\<close>:
  the \<open>i\<close>-th micro-batch of an array of rows, as it is sent.
\<close>

definition micro_batch :: "nat \<Rightarrow> int list list \<Rightarrow> int list list" where
  "micro_batch i xs =
     map (map astype_int32) (py_slice xs (int (i * mbs)) (int ((i + 1) * mbs)))"

text \<open>
  The \<^verbatim>\<open>for i in range(...)\<close> loop of \<^verbatim>\<open>ref_model\<close>. The remote call
  \<^verbatim>\<open>client.infer\<close> is the parameter \<open>infer\<close>: it gets the client, the two int32 arrays of
  one micro-batch and returns the rows of the \<^verbatim>\<open>logits\<close> tensor, or raises. An exception
  of the call is not caught: the loop stops with it.
\<close>

fun ref_model_loop ::
  "(client \<Rightarrow> int list list \<Rightarrow> int list list \<Rightarrow> error + 'l list) \<Rightarrow> client \<Rightarrow>
   int list list \<Rightarrow> int list list \<Rightarrow> nat list \<Rightarrow> 'l list list \<Rightarrow> error + 'l list list" where
  "ref_model_loop infer cl all_tokens attention_masks [] out = Inr out"
| "ref_model_loop infer cl all_tokens attention_masks (i # is) out =
     (case infer cl (micro_batch i all_tokens) (micro_batch i attention_masks) of
        Inl e \<Rightarrow> Inl e
      | Inr logits \<Rightarrow>
          ref_model_loop infer cl all_tokens attention_masks is (out @ [logits]))"

text \<open>\<^verbatim>\<open>torch.cat(out, dim=0)\<close> of row lists; an empty list of tensors raises.\<close>

definition torch_cat :: "'l list list \<Rightarrow> error + 'l list" where
  "torch_cat out = (if out = [] then Inl RuntimeError else Inr (concat out))"

definition ref_model ::
  "(client \<Rightarrow> int list list \<Rightarrow> int list list \<Rightarrow> error + 'l list) \<Rightarrow> client \<Rightarrow>
   int list list \<Rightarrow> int list list \<Rightarrow> error + 'l list" where
  "ref_model infer cl all_tokens attention_masks =
     (case ref_model_loop infer cl all_tokens attention_masks
             [0 ..< num_chunks (length all_tokens)] [] of
        Inl e \<Rightarrow> Inl e
      | Inr out \<Rightarrow> torch_cat out)"

section \<open>The trainer and its collaborators\<close>

text \<open>
  A \<^verbatim>\<open>PPORLElement\<close>, the unit pushed to the rollout store. Its field \<^verbatim>\<open>values\<close> is
  \<open>elem_values\<close> here (\<open>values\<close> is a command of Isabelle).
\<close>

record element =
  query_tensor :: "int list"
  response_tensor :: "int list"
  logprobs :: "real list"
  elem_values :: "real list"
  rewards :: "real list"

text \<open>
  A prompt batch as the prompt iterator yields it: \<^verbatim>\<open>batch.input_ids\<close> and
  \<^verbatim>\<open>batch.attention_mask\<close> (\<open>prompt_mask\<close> here, to keep the name \<open>attention_mask\<close> for
  the local variable of the rollout). Tensors are lists of rows.
\<close>

record batch =
  input_ids :: "int list list"
  prompt_mask :: "int list list"

text \<open>
  What \<^verbatim>\<open>make_experience\<close> calls but this module does not define. \<open>'l\<close> is the logits
  vector of one position, \<open>'rm\<close> the \<^verbatim>\<open>RunningMoments\<close> object.
  \<^item> \<open>prompt_iterator k\<close> is the batch of the \<open>k\<close>-th \<^verbatim>\<open>next(self.prompt_iterator)\<close>;
  \<^item> \<open>generate\<close> is \<^verbatim>\<open>self.generate(**batch)\<close>, \<open>reward_fn\<close> the reward function;
  \<^item> \<open>model_forward\<close> is \<^verbatim>\<open>self.model(all_tokens, attention_mask=...)\<close> giving logits and
    values, \<open>forward_hydra\<close> is present exactly when the model has a \<^verbatim>\<open>frozen_head\<close>;
  \<^item> \<open>infer\<close> is the remote call of the reference scorer;
  \<^item> \<open>logprob_of_label l t\<close> is the entry of \<^verbatim>\<open>log_softmax(l)\<close> at label \<open>t\<close>, the
    pointwise content of \<^verbatim>\<open>logprobs_of_labels\<close>;
  \<^item> \<open>tensor_mean\<close>, \<open>tensor_std\<close> are \<^verbatim>\<open>Tensor.mean\<close> and \<^verbatim>\<open>Tensor.std\<close>;
  \<^item> \<open>moments_update\<close> is \<^verbatim>\<open>RunningMoments.update\<close>, \<open>moments_std\<close> its \<^verbatim>\<open>std\<close> field.
  Floating-point tensors are lists of reals: rounding, infinities and NaN are outside
  the model.
\<close>

record ('l, 'rm) collaborators =
  prompt_iterator :: "nat \<Rightarrow> batch"
  generate :: "batch \<Rightarrow> int list list"
  reward_fn :: "string list \<Rightarrow> string list \<Rightarrow> string list \<Rightarrow> real list"
  model_forward :: "int list list \<Rightarrow> int list list \<Rightarrow> 'l list list \<times> real list list"
  forward_hydra :: "(int list list \<Rightarrow> int list list \<Rightarrow> 'l list list) option"
  infer :: "client \<Rightarrow> int list list \<Rightarrow> int list list \<Rightarrow> error + 'l list list"
  logprob_of_label :: "'l \<Rightarrow> int \<Rightarrow> real"
  tensor_mean :: "real list \<Rightarrow> real"
  tensor_std :: "real list \<Rightarrow> real"
  moments_update :: "'rm \<Rightarrow> real list \<Rightarrow> 'rm"
  moments_std :: "'rm \<Rightarrow> real"

text \<open>
  The attributes of \<^verbatim>\<open>self\<close> that the rollout reads and writes. \<open>ref_client\<close> is the
  client captured by the closure in \<^verbatim>\<open>self.ref_model\<close>; \<open>iterator_pos\<close> counts the
  batches drawn from the prompt iterator; \<open>store\<close> is the log of the calls of
  \<^verbatim>\<open>push_to_store\<close>, one entry per call.
\<close>

record 'rm trainer =
  config :: config
  tokenizer :: tokenizer
  stop_sequences :: "string list"
  ref_client :: client
  kl_ctl_value :: real
  ref_mean :: "real option"
  ref_std :: "real option"
  running_moments :: 'rm
  iterator_pos :: nat
  store :: "element list list"

section \<open>\<^verbatim>\<open>CustomPPOTrainer.__init__\<close>\<close>

text \<open>
  The constructor gets the tokenizer \<^verbatim>\<open>AutoTokenizer.from_pretrained\<close> loaded.
  \<open>add_special_tokens\<close> is the library call
  \<^verbatim>\<open>tokenizer.add_special_tokens({"pad_token": ...})\<close>, \<open>base_init\<close> the constructor of
  the base class, which receives the configuration and finds \<^verbatim>\<open>self.tokenizer\<close> set.
  The last statement builds the remote reference scorer from the environment.
\<close>

definition init_tokenizer :: "(string \<Rightarrow> tokenizer \<Rightarrow> tokenizer) \<Rightarrow> tokenizer \<Rightarrow> tokenizer" where
  "init_tokenizer add_special_tokens tk =
     (if pad_token_id tk = eos_token_id tk
      then add_special_tokens ''<|padding|>'' tk
      else tk)"

definition trainer_init ::
  "(string \<Rightarrow> tokenizer \<Rightarrow> tokenizer) \<Rightarrow> (config \<Rightarrow> tokenizer \<Rightarrow> 'rm trainer) \<Rightarrow>
   (string \<rightharpoonup> string) \<Rightarrow> tokenizer \<Rightarrow> config \<Rightarrow> error + 'rm trainer" where
  "trainer_init add_special_tokens base_init environ loaded cfg =
     (let self = base_init cfg (init_tokenizer add_special_tokens loaded)
      in case triton_server_ref_model environ of
           Inl e \<Rightarrow> Inl e
         | Inr cl \<Rightarrow> Inr (self\<lparr>ref_client := cl\<rparr>))"

section \<open>\<^verbatim>\<open>CustomPPOTrainer.make_experience\<close>\<close>

text \<open>
  The model is the run of one worker outside a distributed runtime
  (\<^verbatim>\<open>is_main_process\<close> holds, \<^verbatim>\<open>torch.distributed.is_initialized()\<close> does not):
  \<^verbatim>\<open>pad_across_processes\<close> and \<^verbatim>\<open>gather\<close> return their argument and the worker reads its
  scores as \<^verbatim>\<open>all_scores[0]\<close>. The timing statistics, \<^verbatim>\<open>mean_kl\<close> and the progress bar do
  not reach the replay elements and are left out, except that \<^verbatim>\<open>exp_time\<close> is unbound
  after the loop when the loop body never ran.
\<close>

subsection \<open>Padding the re-tokenized outputs\<close>

text \<open>
  \<^verbatim>\<open>maxsize = max(map(len, outputs))\<close> raises \<open>ValueError\<close> on an empty list;
  \<^verbatim>\<open>F.pad(output, (0, maxsize - len(output)), value=pad_token_id)\<close> pads on the right,
  with 0 when the value is \<^verbatim>\<open>None\<close>.
\<close>

definition pad_outputs :: "int option \<Rightarrow> int list list \<Rightarrow> error + int list list" where
  "pad_outputs pad outputs =
     (if outputs = [] then Inl ValueError
      else
        (let maxsize = Max (set (map length outputs))
         in Inr (map (\<lambda>output. output @
                   replicate (maxsize - length output) (case pad of None \<Rightarrow> 0 | Some p \<Rightarrow> p))
                 outputs)))"

subsection \<open>Reference statistics, running moments, scaling and clipping\<close>

text \<open>
  \<^verbatim>\<open>if self.ref_mean is None: self.ref_mean, self.ref_std = scores.mean(), scores.std()\<close>
  followed by \<^verbatim>\<open>self.running_moments.update(scores)\<close>.
\<close>

definition update_statistics ::
  "('l, 'rm) collaborators \<Rightarrow> 'rm trainer \<Rightarrow> real list \<Rightarrow> 'rm trainer" where
  "update_statistics ext self scores =
     (let self1 =
            (if ref_mean self = None
             then self\<lparr>ref_mean := Some (tensor_mean ext scores),
                       ref_std := Some (tensor_std ext scores)\<rparr>
             else self)
      in self1\<lparr>running_moments := moments_update ext (running_moments self1) scores\<rparr>)"

text \<open>
  \<^verbatim>\<open>scores /= self.running_moments.std\<close> or \<^verbatim>\<open>scores /= self.ref_std\<close>; dividing by
  \<^verbatim>\<open>None\<close> raises \<open>TypeError\<close>. Any other mode changes nothing.
\<close>

definition scale_scores ::
  "('l, 'rm) collaborators \<Rightarrow> 'rm trainer \<Rightarrow> real list \<Rightarrow> error + real list" where
  "scale_scores ext self scores =
     (if scale_reward (config self) = Some ''running''
      then Inr (map (\<lambda>s. s / moments_std ext (running_moments self)) scores)
      else if scale_reward (config self) = Some ''ref''
      then (case ref_std self of
              None \<Rightarrow> Inl TypeError
            | Some sd \<Rightarrow> Inr (map (\<lambda>s. s / sd) scores))
      else Inr scores)"

text \<open>
  \<^verbatim>\<open>if clip_reward: scores = torch.clip(scores, -clip_reward, clip_reward)\<close>; \<^verbatim>\<open>None\<close> and
  0 are false. \<^verbatim>\<open>torch.clip(x, lo, hi)\<close> is \<open>min (max x lo) hi\<close>.
\<close>

definition clip_scores :: "config \<Rightarrow> real list \<Rightarrow> real list" where
  "clip_scores cfg scores =
     (case cliprange_reward cfg of
        None \<Rightarrow> scores
      | Some clip_reward \<Rightarrow>
          (if clip_reward \<noteq> 0
           then map (\<lambda>s. min (max s (- clip_reward)) clip_reward) scores
           else scores))"

text \<open>Lines 780 to 796 of the source as one step on the trainer and the raw scores.\<close>

definition shape_scores ::
  "('l, 'rm) collaborators \<Rightarrow> 'rm trainer \<Rightarrow> real list \<Rightarrow> error + ('rm trainer \<times> real list)" where
  "shape_scores ext self scores =
     (let self1 = update_statistics ext self scores
      in case scale_scores ext self1 scores of
           Inl e \<Rightarrow> Inl e
         | Inr scaled \<Rightarrow> Inr (self1, clip_scores (config self1) scaled))"

subsection \<open>The forward passes\<close>

text \<open>
  The branch \<^verbatim>\<open>Precompute logprobs, values\<close>. The sequence-to-sequence branch raises
  before it computes anything. Otherwise \<^verbatim>\<open>torch.cat(..., dim=1)\<close> joins the rows of
  prompts and padded outputs (it raises when the numbers of rows differ),
  \<^verbatim>\<open>not_equal(pad_token_id)\<close> gives the mask (it raises on \<^verbatim>\<open>None\<close>), and the reference
  logits come from the hydra head when the model has one, else from the remote scorer,
  whose exception is not caught.
\<close>

definition forward_pass ::
  "('l, 'rm) collaborators \<Rightarrow> 'rm trainer \<Rightarrow> int list list \<Rightarrow> int list list \<Rightarrow>
   error + (int list list \<times> int list list \<times> 'l list list \<times> real list list \<times> 'l list list)" where
  "forward_pass ext self prompt_tensors sample_outputs =
     (if model_arch_type (config self) = ''seq2seq'' then Inl NotImplementedError
      else if length prompt_tensors \<noteq> length sample_outputs then Inl RuntimeError
      else
        (case pad_token_id (tokenizer self) of
           None \<Rightarrow> Inl TypeError
         | Some pad \<Rightarrow>
             (let all_tokens = map2 (@) prompt_tensors sample_outputs;
                  attention_mask = map (map (\<lambda>t. if t \<noteq> pad then 1 else 0)) all_tokens;
                  (logits, all_values) = model_forward ext all_tokens attention_mask
              in case (case forward_hydra ext of
                         Some hydra \<Rightarrow> Inr (hydra all_tokens attention_mask)
                       | None \<Rightarrow> ref_model (infer ext) (ref_client self) all_tokens attention_mask) of
                   Inl e \<Rightarrow> Inl e
                 | Inr ref_logits \<Rightarrow>
                     Inr (all_tokens, attention_mask, logits, all_values, ref_logits))))"

subsection \<open>Log-probabilities, the KL penalty and the replay elements\<close>

text \<open>
  \<^verbatim>\<open>logprobs_of_labels(logits[:, :-1, :], all_tokens[:, 1:])\<close>: position \<open>j\<close> of a row is
  the log-probability that the logits at \<open>j\<close> give to the token at \<open>j + 1\<close>.
\<close>

definition logprobs_of_labels ::
  "('l \<Rightarrow> int \<Rightarrow> real) \<Rightarrow> 'l list list \<Rightarrow> int list list \<Rightarrow> real list list" where
  "logprobs_of_labels lp logits labels = map2 (map2 lp) logits labels"

text \<open>
  \<^verbatim>\<open>log_ratio = (logprobs - ref_logprobs) * attention_mask[:, :-1]\<close>
\<close>

definition log_ratio_of ::
  "real list list \<Rightarrow> real list list \<Rightarrow> int list list \<Rightarrow> real list list" where
  "log_ratio_of lps ref_lps attention_mask =
     map2 (\<lambda>d m. map2 (\<lambda>x y. x * real_of_int y) d (butlast m))
       (map2 (map2 (-)) lps ref_lps) attention_mask"

text \<open>
  \<^verbatim>\<open>ends = start + attention_mask[:, start:].sum(1) + 1\<close>, one entry per row.
\<close>

definition ends_of :: "int \<Rightarrow> int list list \<Rightarrow> int list" where
  "ends_of start attention_mask =
     map (\<lambda>m. start + sum_list (py_slice_from m start) + 1) attention_mask"

text \<open>
  \<^verbatim>\<open>kl_penalty = self.kl_ctl.value * -log_ratio.cpu()\<close>
\<close>

definition kl_penalty_of :: "real \<Rightarrow> real list list \<Rightarrow> real list list" where
  "kl_penalty_of kl log_ratio = map (map (\<lambda>x. kl * (- x))) log_ratio"

text \<open>
  \<^verbatim>\<open>rewards = kl_penalty[sample_idx]; rewards[-1] += scores[sample_idx]\<close> on the slice
  \<^verbatim>\<open>xs[start : ends[ix]]\<close>: the last entry of an empty slice does not exist.
\<close>

definition add_score :: "real list \<Rightarrow> real \<Rightarrow> error + real list" where
  "add_score kl_slice score =
     (if kl_slice = [] then Inl IndexError
      else Inr (kl_slice[length kl_slice - 1 := last kl_slice + score]))"

text \<open>
  The element of \<^verbatim>\<open>sample_idx\<close>. Every tensor is indexed by \<^verbatim>\<open>sample_idx\<close>; an index
  beyond its rows raises \<open>IndexError\<close>, as the empty reward slice does.
\<close>

definition rollout_element ::
  "int \<Rightarrow> int list \<Rightarrow> int list list \<Rightarrow> int list list \<Rightarrow> real list list \<Rightarrow> real list list \<Rightarrow>
   real list list \<Rightarrow> real list \<Rightarrow> nat \<Rightarrow> error + element" where
  "rollout_element start ends prompt_tensors sample_outputs all_logprobs all_values kl_penalty
     scores sample_idx =
     (if sample_idx < length ends \<and> sample_idx < length prompt_tensors \<and>
         sample_idx < length sample_outputs \<and> sample_idx < length all_logprobs \<and>
         sample_idx < length all_values \<and> sample_idx < length kl_penalty \<and>
         sample_idx < length scores
      then
        (case add_score (py_slice (kl_penalty ! sample_idx) start (ends ! sample_idx))
                (scores ! sample_idx) of
           Inl e \<Rightarrow> Inl e
         | Inr rs \<Rightarrow>
             Inr \<lparr>query_tensor = prompt_tensors ! sample_idx,
                  response_tensor = sample_outputs ! sample_idx,
                  logprobs = py_slice (all_logprobs ! sample_idx) start (ends ! sample_idx),
                  elem_values = py_slice (all_values ! sample_idx) start (ends ! sample_idx),
                  rewards = rs\<rparr>)
      else Inl IndexError)"

text \<open>Running a list of steps in order; the first exception ends the run.\<close>

fun collect :: "(error + 'a) list \<Rightarrow> error + 'a list" where
  "collect [] = Inr []"
| "collect (r # rs) =
     (case r of
        Inl e \<Rightarrow> Inl e
      | Inr x \<Rightarrow> (case collect rs of Inl e \<Rightarrow> Inl e | Inr xs \<Rightarrow> Inr (x # xs)))"

text \<open>
  From the log-probabilities to the elements of one iteration (lines 856 to 903, causal
  branch): \<open>start\<close> is \<^verbatim>\<open>prompt_tensors.shape[1] - 1\<close>, \<^verbatim>\<open>values\<close> loses its last
  column, and \<^verbatim>\<open>n_samples\<close> is the number of rows of \<^verbatim>\<open>samples\<close>.
\<close>

definition rollout_elements ::
  "('l \<Rightarrow> int \<Rightarrow> real) \<Rightarrow> real \<Rightarrow> int list list \<Rightarrow> int list list \<Rightarrow> nat \<Rightarrow> real list \<Rightarrow>
   int list list \<Rightarrow> int list list \<Rightarrow> 'l list list \<Rightarrow> real list list \<Rightarrow> 'l list list \<Rightarrow>
   error + element list" where
  "rollout_elements lp kl prompt_tensors sample_outputs n_samples scores
     all_tokens attention_mask logits model_values ref_logits =
     (let all_logprobs = logprobs_of_labels lp (map butlast logits) (map tl all_tokens);
          ref_logprobs = logprobs_of_labels lp (map butlast ref_logits) (map tl all_tokens);
          start = shape1 prompt_tensors - 1;
          log_ratio = log_ratio_of all_logprobs ref_logprobs attention_mask;
          all_values = map butlast model_values;
          ends = ends_of start attention_mask;
          kl_penalty = kl_penalty_of kl log_ratio
      in collect (map (rollout_element start ends prompt_tensors sample_outputs
                         all_logprobs all_values kl_penalty scores)
                      [0 ..< n_samples]))"

text \<open>
  Lines 798 to 903 for one batch: the forward passes, then the elements. \<open>self\<close> gives
  the configuration, the tokenizer, the client of the reference scorer and the KL
  coefficient \<^verbatim>\<open>self.kl_ctl.value\<close>.
\<close>

definition batch_elements ::
  "('l, 'rm) collaborators \<Rightarrow> 'rm trainer \<Rightarrow> int list list \<Rightarrow> int list list \<Rightarrow> nat \<Rightarrow>
   real list \<Rightarrow> error + element list" where
  "batch_elements ext self prompt_tensors sample_outputs n_samples scores =
     (case forward_pass ext self prompt_tensors sample_outputs of
        Inl e \<Rightarrow> Inl e
      | Inr (all_tokens, attention_mask, logits, model_values, ref_logits) \<Rightarrow>
          rollout_elements (logprob_of_label ext) (kl_ctl_value self)
            prompt_tensors sample_outputs n_samples scores
            all_tokens attention_mask logits model_values ref_logits)"

subsection \<open>One iteration of the rollout loop\<close>

text \<open>
  The raw scores of the iteration that starts in state \<open>self\<close>: the next batch is
  generated from, the gathered samples are decoded and the reward function scores the
  decoded batch.
\<close>

definition rollout_scores ::
  "('l, 'rm) collaborators \<Rightarrow> 'rm trainer \<Rightarrow> error + real list" where
  "rollout_scores ext self =
     (let batch = prompt_iterator ext (iterator_pos self);
          samples = generate ext batch;
          prompt_tensors = input_ids batch;
          prompt_sizes = replicate (length prompt_tensors) (shape1 prompt_tensors)
      in case decode (config self) (tokenizer self) (stop_sequences self)
                prompt_tensors samples (Some prompt_sizes) True of
           Inl e \<Rightarrow> Inl e
         | Inr (all_str_samples, all_str_prompts, all_str_outputs) \<Rightarrow>
             Inr (reward_fn ext all_str_samples all_str_prompts all_str_outputs))"

text \<open>
  The body of \<^verbatim>\<open>while len(ppo_rl_elements) < num_rollouts\<close>: it returns the trainer as
  the iteration leaves it and the elements the iteration appends. An exception ends the
  call; the state it leaves behind is not modelled.
\<close>

definition rollout_iteration ::
  "('l, 'rm) collaborators \<Rightarrow> 'rm trainer \<Rightarrow> error + ('rm trainer \<times> element list)" where
  "rollout_iteration ext self =
     (let batch = prompt_iterator ext (iterator_pos self);
          samples = generate ext batch;
          prompt_tensors = input_ids batch
      in case rollout_scores ext self of
           Inl e \<Rightarrow> Inl e
         | Inr scores \<Rightarrow>
         (case decode (config self) (tokenizer self) (stop_sequences self)
                 prompt_tensors samples None True of
            Inl e \<Rightarrow> Inl e
          | Inr (str_samples, str_prompts, str_outputs) \<Rightarrow>
          (case pad_outputs (pad_token_id (tokenizer self))
                  (map (tok_encode (tokenizer self)) str_outputs) of
             Inl e \<Rightarrow> Inl e
           | Inr sample_outputs \<Rightarrow>
           (case shape_scores ext (self\<lparr>iterator_pos := iterator_pos self + 1\<rparr>) scores of
              Inl e \<Rightarrow> Inl e
            | Inr (self1, shaped) \<Rightarrow>
            (case batch_elements ext self1 prompt_tensors sample_outputs
                    (length samples) shaped of
               Inl e \<Rightarrow> Inl e
             | Inr elems \<Rightarrow> Inr (self1, elems))))))"

subsection \<open>The loop and the push\<close>

text \<open>
  The \<^verbatim>\<open>while\<close> loop. It may not terminate, so its result is an option: \<open>None\<close> is a
  loop that runs forever, \<open>Some (Inl e)\<close> an exception, \<open>Some (Inr ...)\<close> the state at
  the exit. The flag tells whether \<^verbatim>\<open>exp_time\<close> has been assigned.
\<close>

partial_function (option) rollout_loop ::
  "('l, 'rm) collaborators \<Rightarrow> int \<Rightarrow> 'rm trainer \<Rightarrow> element list \<Rightarrow> bool \<Rightarrow>
   (error + ('rm trainer \<times> element list \<times> bool)) option" where
  "rollout_loop ext num_rollouts self ppo_rl_elements exp_time_bound =
     (if int (length ppo_rl_elements) < num_rollouts
      then (case rollout_iteration ext self of
              Inl e \<Rightarrow> Some (Inl e)
            | Inr (self1, elems) \<Rightarrow>
                rollout_loop ext num_rollouts self1 (ppo_rl_elements @ elems) True)
      else Some (Inr (self, ppo_rl_elements, exp_time_bound)))"

declare rollout_loop.simps [code]

text \<open>\<^verbatim>\<open>push_to_store\<close>: one call, with the whole list.\<close>

definition push_to_store :: "'rm trainer \<Rightarrow> element list \<Rightarrow> 'rm trainer" where
  "push_to_store self ppo_rl_elements = self\<lparr>store := store self @ [ppo_rl_elements]\<rparr>"

text \<open>
  \<^verbatim>\<open>make_experience(num_rollouts)\<close>: the loop from the empty list, the statistics (which
  read \<^verbatim>\<open>exp_time\<close>, unbound when the loop body never ran), then the push.
\<close>

definition make_experience ::
  "('l, 'rm) collaborators \<Rightarrow> int \<Rightarrow> 'rm trainer \<Rightarrow> (error + 'rm trainer) option" where
  "make_experience ext num_rollouts self =
     (case rollout_loop ext num_rollouts self [] False of
        None \<Rightarrow> None
      | Some (Inl e) \<Rightarrow> Some (Inl e)
      | Some (Inr (self1, ppo_rl_elements, exp_time_bound)) \<Rightarrow>
          (if exp_time_bound
           then Some (Inr (push_to_store self1 ppo_rl_elements))
           else Some (Inl UnboundLocalError)))"

section \<open>Concrete collaborators for the examples\<close>

text \<open>
  Two servers with integer logits: the first scores every row from that row alone, the
  second reports the size of the request in every row. Both are deterministic.
\<close>

definition rowwise_server ::
  "client \<Rightarrow> int list list \<Rightarrow> int list list \<Rightarrow> error + int list" where
  "rowwise_server cl ts ms = Inr (map2 (\<lambda>t m. sum_list t + sum_list m) ts ms)"

definition counting_server ::
  "client \<Rightarrow> int list list \<Rightarrow> int list list \<Rightarrow> error + int list" where
  "counting_server cl ts ms = Inr (map (\<lambda>_. int (length ts)) ts)"

text \<open>A server that is down.\<close>

definition failing_server ::
  "client \<Rightarrow> int list list \<Rightarrow> int list list \<Rightarrow> error + int list" where
  "failing_server cl ts ms = Inl (RemoteError ''unavailable'')"

definition local_client :: client where
  "local_client = \<lparr>url = ''localhost:8001'', model_name = ''ref''\<rparr>"

text \<open>
  A character-level tokenizer: one token per character, \<open>0\<close> the padding token and
  \<open>2\<close> the end-of-sequence token, written \<open>_\<close> and \<open>$\<close>; token \<open>4\<close> is the space.
\<close>

definition tok_char :: "int \<Rightarrow> char" where
  "tok_char t =
     (if t = 0 then CHR ''_'' else if t = 2 then CHR ''$''
      else if t = 4 then CHR '' ''
      else if t = 5 then CHR ''a'' else if t = 6 then CHR ''b''
      else if t = 7 then CHR ''p'' else if t = 8 then CHR ''q'' else CHR ''?'')"

definition char_tok :: "char \<Rightarrow> int" where
  "char_tok c =
     (if c = CHR ''_'' then 0 else if c = CHR ''$'' then 2
      else if c = CHR '' '' then 4
      else if c = CHR ''a'' then 5 else if c = CHR ''b'' then 6
      else if c = CHR ''p'' then 7 else if c = CHR ''q'' then 8 else 9)"

definition char_tokenizer :: tokenizer where
  "char_tokenizer =
     \<lparr>pad_token_id = Some 0, eos_token_id = Some 2, eos_token = Some ''$'',
      tok_decode = map tok_char, tok_encode = map char_tok\<rparr>"

definition causal_config :: config where
  "causal_config =
     \<lparr>model_arch_type = ''causal'', scale_reward = None, cliprange_reward = Some 2\<rparr>"

definition seq2seq_config :: config where
  "seq2seq_config =
     \<lparr>model_arch_type = ''seq2seq'', scale_reward = None, cliprange_reward = Some 2\<rparr>"

text \<open>
  Collaborators for a batch of two prompts \<open>pq\<close>. The first sample runs to the full
  length and ends with the end-of-sequence token, the second ends early and is padded.
  The policy gives every realized token the log-probability 1, the remote reference
  model the log-probability 0, and the value of a position is its token id. The
  running moments are the list of all scores seen.
\<close>

definition toy :: "(real, real list) collaborators" where
  "toy =
     \<lparr>prompt_iterator =
        (\<lambda>k. \<lparr>input_ids = [[7, 8], [7, 8]], prompt_mask = [[1, 1], [1, 1]]\<rparr>),
      generate = (\<lambda>b. [[7, 8, 5, 6, 5, 6, 2], [7, 8, 5, 2, 0, 0, 0]]),
      reward_fn = (\<lambda>samples prompts outputs. [3, - 1]),
      model_forward = (\<lambda>toks mask. (map (map (\<lambda>t. 1)) toks, map (map real_of_int) toks)),
      forward_hydra = None,
      infer = (\<lambda>cl ts ms. Inr (map (map (\<lambda>t. 0)) ts)),
      logprob_of_label = (\<lambda>l t. l),
      tensor_mean = (\<lambda>xs. sum_list xs / real (length xs)),
      tensor_std = (\<lambda>xs. Max (set xs) - Min (set xs)),
      moments_update = (\<lambda>rm xs. rm @ xs),
      moments_std = (\<lambda>rm. real (length rm))\<rparr>"

definition toy_trainer :: "real list trainer" where
  "toy_trainer =
     \<lparr>config = causal_config, tokenizer = char_tokenizer, stop_sequences = [],
      ref_client = local_client, kl_ctl_value = 1, ref_mean = None, ref_std = None,
      running_moments = [], iterator_pos = 0, store = []\<rparr>"

text \<open>
  A loaded tokenizer whose padding token is its end-of-sequence token; the library call
  on the character tokenizer, whose vocabulary has ten entries, so that the added token
  gets the id 10 and becomes the padding token; and a base-class constructor that keeps
  the tokenizer it finds.
\<close>

definition shared_pad_tokenizer :: tokenizer where
  "shared_pad_tokenizer = char_tokenizer\<lparr>pad_token_id := Some 2\<rparr>"

definition add_pad_token :: "string \<Rightarrow> tokenizer \<Rightarrow> tokenizer" where
  "add_pad_token name tk = tk\<lparr>pad_token_id := Some 10\<rparr>"

definition keep_tokenizer :: "config \<Rightarrow> tokenizer \<Rightarrow> real list trainer" where
  "keep_tokenizer cfg tk = toy_trainer\<lparr>config := cfg, tokenizer := tk\<rparr>"

text \<open>
  Collaborators with graded log-probabilities: the policy logit of a token \<open>t\<close> is
  \<open>2 t + 1\<close>, the reference logit is \<open>t\<close>, and the log-probability of a label is the
  logit plus the label. The log-ratio at a position is then its token plus one; it is
  not 0 at a padding token.
\<close>

definition graded :: "(real, real list) collaborators" where
  "graded =
     toy\<lparr>model_forward :=
           (\<lambda>toks mask. (map (map (\<lambda>t. 2 * real_of_int t + 1)) toks,
                          map (map real_of_int) toks)),
         infer := (\<lambda>cl ts ms. Inr (map (map real_of_int) ts)),
         logprob_of_label := (\<lambda>l t. l + real_of_int t)\<rparr>"

section \<open>Properties of the remote reference scorer\<close>

subsection \<open>Slices and chunks\<close>

lemma py_slice_nat:
  "a \<le> b \<Longrightarrow> py_slice xs (int a) (int b) = take (b - a) (drop a xs)"
  by (auto simp: py_slice_def py_index_def Let_def min_def)

lemma micro_batch_eq:
  "micro_batch i xs = take mbs (drop (i * mbs) (map (map astype_int32) xs))"
  using py_slice_nat [of "i * mbs" "(i + 1) * mbs" xs]
  by (simp add: micro_batch_def take_map drop_map)

lemma num_chunks_covers: "n \<le> num_chunks n * mbs"
proof -
  define c where "c = \<lceil>real n / 8\<rceil>"
  have c0: "0 \<le> c" unfolding c_def by simp
  have "real n / 8 \<le> of_int c" unfolding c_def by (rule le_of_int_ceiling)
  then have "real n \<le> real (nat c * 8)" using c0 by simp
  then have "n \<le> nat c * 8" by (simp only: of_nat_le_iff)
  then show ?thesis by (simp add: num_chunks_def mbs_def c_def)
qed

lemma num_chunks_pos: "0 < n \<Longrightarrow> 0 < num_chunks n"
  using num_chunks_covers [of n] by (cases "num_chunks n") auto

lemma concat_chunks:
  "concat (map (\<lambda>i. take m (drop (i * m) xs)) [0 ..< k]) = take (k * m) xs"
proof (induction k)
  case 0
  show ?case by simp
next
  case (Suc k)
  have "take (k * m + m) xs = take (k * m) xs @ take m (drop (k * m) xs)"
    by (simp add: take_add)
  with Suc show ?case by (simp add: add.commute)
qed

subsection \<open>The loop over the micro-batches\<close>

text \<open>
  With a server that scores row by row, the loop collects the chunks of the full
  result.
\<close>

lemma ref_model_loop_rowwise:
  assumes srv: "\<forall>ts ms. length ts = length ms \<longrightarrow> srv cl ts ms = Inr (map2 f ts ms)"
    and len: "length all_tokens = length attention_masks"
  shows "ref_model_loop srv cl all_tokens attention_masks ixs out =
         Inr (out @ map (\<lambda>i. take mbs (drop (i * mbs)
                (map2 f (map (map astype_int32) all_tokens)
                        (map (map astype_int32) attention_masks)))) ixs)"
proof (induction ixs arbitrary: out)
  case Nil
  show ?case by simp
next
  case (Cons i ixs)
  have "srv cl (micro_batch i all_tokens) (micro_batch i attention_masks)
        = Inr (map2 f (micro_batch i all_tokens) (micro_batch i attention_masks))"
    using srv len by (simp add: micro_batch_eq)
  also have "map2 f (micro_batch i all_tokens) (micro_batch i attention_masks)
     = take mbs (drop (i * mbs) (map2 f (map (map astype_int32) all_tokens)
                        (map (map astype_int32) attention_masks)))"
    by (simp add: micro_batch_eq take_map drop_map take_zip drop_zip)
  finally show ?case
    using Cons.IH by simp
qed

text \<open>The first request that fails ends the loop with its exception.\<close>

lemma ref_model_loop_raises:
  assumes ok: "\<forall>j \<in> set js. \<exists>r. srv cl (micro_batch j all_tokens)
                                   (micro_batch j attention_masks) = Inr r"
    and bad: "srv cl (micro_batch i all_tokens) (micro_batch i attention_masks) = Inl e"
  shows "ref_model_loop srv cl all_tokens attention_masks (js @ i # ks) out = Inl e"
  using ok
proof (induction js arbitrary: out)
  case Nil
  show ?case using bad by simp
next
  case (Cons j js)
  then obtain r where
    "srv cl (micro_batch j all_tokens) (micro_batch j attention_masks) = Inr r"
    by auto
  with Cons show ?case by simp
qed

text \<open>
  Claim C3, as amended. For a non-empty batch of token rows with as many mask rows, and
  a server whose result row depends on the request row alone, the chunked loop of
  \<^verbatim>\<open>ref_model\<close> returns what one request with the full batch (cast to int32) returns:
  as many rows as the batch has, in the order of the batch.
\<close>

theorem ref_model_chunking:
  assumes srv: "\<forall>ts ms. length ts = length ms \<longrightarrow> srv cl ts ms = Inr (map2 f ts ms)"
    and len: "length all_tokens = length attention_masks"
    and ne: "all_tokens \<noteq> []"
  shows "ref_model srv cl all_tokens attention_masks =
           srv cl (map (map astype_int32) all_tokens) (map (map astype_int32) attention_masks)
       \<and> (\<exists>rows. ref_model srv cl all_tokens attention_masks = Inr rows
              \<and> length rows = length all_tokens)"
proof -
  let ?full = "map2 f (map (map astype_int32) all_tokens) (map (map astype_int32) attention_masks)"
  let ?k = "num_chunks (length all_tokens)"
  have full_len: "length ?full = length all_tokens" using len by simp
  have loop: "ref_model_loop srv cl all_tokens attention_masks [0 ..< ?k] [] =
              Inr (map (\<lambda>i. take mbs (drop (i * mbs) ?full)) [0 ..< ?k])"
    using ref_model_loop_rowwise [where srv = srv and cl = cl and f = f
        and all_tokens = all_tokens and attention_masks = attention_masks
        and ixs = "[0 ..< ?k]" and out = "[]"] srv len by simp
  have "0 < ?k" using ne by (simp add: num_chunks_pos)
  then have chunks_ne: "map (\<lambda>i. take mbs (drop (i * mbs) ?full)) [0 ..< ?k] \<noteq> []" by simp
  have "concat (map (\<lambda>i. take mbs (drop (i * mbs) ?full)) [0 ..< ?k]) = take (?k * mbs) ?full"
    by (rule concat_chunks)
  also have "\<dots> = ?full"
    using num_chunks_covers [of "length all_tokens"] full_len by simp
  finally have cat: "concat (map (\<lambda>i. take mbs (drop (i * mbs) ?full)) [0 ..< ?k]) = ?full" .
  have res: "ref_model srv cl all_tokens attention_masks = Inr ?full"
    unfolding ref_model_def loop using chunks_ne cat by (simp add: torch_cat_def)
  have single: "srv cl (map (map astype_int32) all_tokens) (map (map astype_int32) attention_masks)
                = Inr ?full"
    using srv len by simp
  show ?thesis using res single full_len by simp
qed

text \<open>
  The theorem at a batch of nine rows, which the loop sends as a request of eight rows
  and a request of one.
\<close>

theorem ref_model_chunking_witness:
  "ref_model rowwise_server local_client
     [[1], [2], [3], [4], [5], [6], [7], [8], [9]]
     [[1], [1], [1], [1], [1], [1], [1], [1], [1]]
   = Inr [2, 3, 4, 5, 6, 7, 8, 9, 10]"
proof -
  let ?T = "[[1], [2], [3], [4], [5], [6], [7], [8], [9::int]]"
  let ?M = "[[1], [1], [1], [1], [1], [1], [1], [1], [1::int]]"
  have srv: "\<forall>ts ms. length ts = length ms \<longrightarrow>
      rowwise_server local_client ts ms = Inr (map2 (\<lambda>t m. sum_list t + sum_list m) ts ms)"
    by (simp add: rowwise_server_def)
  have len: "length ?T = length ?M" by simp
  have ne: "?T \<noteq> []" by simp
  have "ref_model rowwise_server local_client ?T ?M =
        rowwise_server local_client (map (map astype_int32) ?T) (map (map astype_int32) ?M)"
    by (rule ref_model_chunking [where srv = rowwise_server and cl = local_client
        and f = "\<lambda>t m. sum_list t + sum_list m" and all_tokens = ?T
        and attention_masks = ?M, THEN conjunct1]) (rule srv len ne)+
  also have "\<dots> = Inr [2, 3, 4, 5, 6, 7, 8, 9, 10]"
    by (simp add: rowwise_server_def astype_int32_def)
  finally show ?thesis .
qed

text \<open>
  Claim C3 as stated fails in two ways. With an empty batch the loop makes no request
  and \<^verbatim>\<open>torch.cat\<close> of the empty list raises, where one request with the empty batch
  returns no rows. And a deterministic server whose rows depend on the size of the
  request answers the chunks differently from the full batch.
\<close>

theorem ref_model_chunking_counterexample:
  "ref_model rowwise_server local_client [] [] = Inl RuntimeError
   \<and> rowwise_server local_client [] [] = Inr []
   \<and> ref_model counting_server local_client
        [[1], [2], [3], [4], [5], [6], [7], [8], [9]]
        [[1], [1], [1], [1], [1], [1], [1], [1], [1]]
      = Inr [8, 8, 8, 8, 8, 8, 8, 8, 1]
   \<and> counting_server local_client
        (map (map astype_int32) [[1], [2], [3], [4], [5], [6], [7], [8], [9]])
        (map (map astype_int32) [[1], [1], [1], [1], [1], [1], [1], [1], [1]])
      = Inr [9, 9, 9, 9, 9, 9, 9, 9, 9]"
proof -
  have a: "ref_model rowwise_server local_client [] [] = Inl RuntimeError"
    by (simp add: ref_model_def num_chunks_def torch_cat_def)
  have b: "rowwise_server local_client [] [] = Inr []"
    by (simp add: rowwise_server_def)
  have c: "ref_model counting_server local_client
        [[1], [2], [3], [4], [5], [6], [7], [8], [9]]
        [[1], [1], [1], [1], [1], [1], [1], [1], [1]]
      = Inr [8, 8, 8, 8, 8, 8, 8, 8, 1]"
    by code_simp
  have d: "counting_server local_client
        (map (map astype_int32) [[1], [2], [3], [4], [5], [6], [7], [8], [9]])
        (map (map astype_int32) [[1], [1], [1], [1], [1], [1], [1], [1], [1]])
      = Inr [9, 9, 9, 9, 9, 9, 9, 9, 9]"
    by (simp add: counting_server_def)
  show ?thesis using a b c d by simp
qed

subsection \<open>Construction and failure of the scorer\<close>

lemma split_on_single: "\<forall>x \<in> set s. x \<noteq> c \<Longrightarrow> split_on c s = [s]"
  by (induction s) simp_all

lemma split_on_append:
  "\<forall>x \<in> set a. x \<noteq> c \<Longrightarrow> split_on c (a @ c # b) = a # split_on c b"
  by (induction a) simp_all

lemma triton_server_ref_model_present:
  assumes host: "environ ''TRITON_HOST_REF'' = Some (endpoint @ ''/'' @ name)"
    and e: "CHR ''/'' \<notin> set endpoint" and n: "CHR ''/'' \<notin> set name"
  shows "triton_server_ref_model environ = Inr \<lparr>url = endpoint, model_name = name\<rparr>"
proof -
  have a: "\<forall>x \<in> set endpoint. x \<noteq> CHR ''/''" using e by blast
  have b: "\<forall>x \<in> set name. x \<noteq> CHR ''/''" using n by blast
  have "split_on CHR ''/'' (endpoint @ CHR ''/'' # name) = [endpoint, name]"
    by (simp only: split_on_append [OF a] split_on_single [OF b])
  then show ?thesis using host by (simp add: triton_server_ref_model_def)
qed

text \<open>
  A request that fails, after requests that succeeded, ends \<^verbatim>\<open>ref_model\<close> with the
  exception of the request.
\<close>

lemma ref_model_raises:
  assumes i: "i < num_chunks (length all_tokens)"
    and ok: "\<forall>j < i. \<exists>r. srv cl (micro_batch j all_tokens) (micro_batch j attention_masks) = Inr r"
    and bad: "srv cl (micro_batch i all_tokens) (micro_batch i attention_masks) = Inl e"
  shows "ref_model srv cl all_tokens attention_masks = Inl e"
proof -
  let ?k = "num_chunks (length all_tokens)"
  have a: "[0 ..< ?k] = [0 ..< i] @ [i ..< ?k]"
    using i upt_add_eq_append [of 0 i "?k - i"] by simp
  have b: "[i ..< ?k] = i # [Suc i ..< ?k]"
    using i by (rule upt_conv_Cons)
  have ok': "\<forall>j \<in> set [0 ..< i]. \<exists>r. srv cl (micro_batch j all_tokens)
                                   (micro_batch j attention_masks) = Inr r"
    using ok by simp
  have "ref_model_loop srv cl all_tokens attention_masks ([0 ..< i] @ i # [Suc i ..< ?k]) [] = Inl e"
    using ref_model_loop_raises [where srv = srv and cl = cl and all_tokens = all_tokens
        and attention_masks = attention_masks and js = "[0 ..< i]" and i = i and e = e
        and ks = "[Suc i ..< ?k]" and out = "[]"] ok' bad
    by simp
  then have "ref_model_loop srv cl all_tokens attention_masks [0 ..< ?k] [] = Inl e"
    using a b by metis
  then show ?thesis
    by (simp only: ref_model_def sum.case)
qed

text \<open>
  Claim C8. \<^verbatim>\<open>triton_server_ref_model\<close> raises the assertion error when
  \<^verbatim>\<open>TRITON_HOST_REF\<close> is not in the environment; a value \<open>endpoint/name\<close> (neither part
  holding a slash) configures the client with that endpoint and model name; and when a
  request of a later call fails, the call raises the exception of that request: nothing
  catches it and nothing retries.
\<close>

theorem ref_scorer_construction:
  "(environ ''TRITON_HOST_REF'' = None \<longrightarrow>
      triton_server_ref_model environ = Inl AssertionError)
   \<and> (environ ''TRITON_HOST_REF'' = Some (endpoint @ ''/'' @ name)
        \<and> CHR ''/'' \<notin> set endpoint \<and> CHR ''/'' \<notin> set name \<longrightarrow>
      triton_server_ref_model environ = Inr \<lparr>url = endpoint, model_name = name\<rparr>)
   \<and> (i < num_chunks (length all_tokens)
        \<and> (\<forall>j < i. \<exists>r. srv cl (micro_batch j all_tokens) (micro_batch j attention_masks) = Inr r)
        \<and> srv cl (micro_batch i all_tokens) (micro_batch i attention_masks) = Inl e \<longrightarrow>
      ref_model srv cl all_tokens attention_masks = Inl e)"
proof (intro conjI impI)
  assume "environ ''TRITON_HOST_REF'' = None"
  then show "triton_server_ref_model environ = Inl AssertionError"
    by (simp add: triton_server_ref_model_def)
next
  assume h: "environ ''TRITON_HOST_REF'' = Some (endpoint @ ''/'' @ name)
        \<and> CHR ''/'' \<notin> set endpoint \<and> CHR ''/'' \<notin> set name"
  from h have h1: "environ ''TRITON_HOST_REF'' = Some (endpoint @ ''/'' @ name)" ..
  from h have h2: "CHR ''/'' \<notin> set endpoint" by (rule conjunct2 [THEN conjunct1])
  from h have h3: "CHR ''/'' \<notin> set name" by (rule conjunct2 [THEN conjunct2])
  show "triton_server_ref_model environ = Inr \<lparr>url = endpoint, model_name = name\<rparr>"
    using triton_server_ref_model_present [where environ = environ and endpoint = endpoint
        and name = name] h1 h2 h3 by simp
next
  assume h: "i < num_chunks (length all_tokens)
        \<and> (\<forall>j < i. \<exists>r. srv cl (micro_batch j all_tokens) (micro_batch j attention_masks) = Inr r)
        \<and> srv cl (micro_batch i all_tokens) (micro_batch i attention_masks) = Inl e"
  from h have h1: "i < num_chunks (length all_tokens)" ..
  from h have h2: "\<forall>j < i. \<exists>r. srv cl (micro_batch j all_tokens)
                               (micro_batch j attention_masks) = Inr r"
    by (rule conjunct2 [THEN conjunct1])
  from h have h3: "srv cl (micro_batch i all_tokens) (micro_batch i attention_masks) = Inl e"
    by (rule conjunct2 [THEN conjunct2])
  show "ref_model srv cl all_tokens attention_masks = Inl e"
    using ref_model_raises [where srv = srv and cl = cl and all_tokens = all_tokens
        and attention_masks = attention_masks and i = i and e = e] h1 h2 h3 by simp
qed

theorem ref_scorer_construction_witness:
  "triton_server_ref_model Map.empty = Inl AssertionError
   \<and> triton_server_ref_model [''TRITON_HOST_REF'' \<mapsto> ''localhost:8001/ref'']
       = Inr \<lparr>url = ''localhost:8001'', model_name = ''ref''\<rparr>
   \<and> ref_model failing_server local_client [[1, 2], [3, 4]] [[1, 1], [1, 1]]
       = Inl (RemoteError ''unavailable'')"
proof -
  have a: "triton_server_ref_model Map.empty = Inl AssertionError"
    using ref_scorer_construction [where environ = Map.empty, THEN conjunct1] by simp
  have b: "triton_server_ref_model [''TRITON_HOST_REF'' \<mapsto> ''localhost:8001/ref'']
       = Inr \<lparr>url = ''localhost:8001'', model_name = ''ref''\<rparr>"
    using ref_scorer_construction
      [where environ = "[''TRITON_HOST_REF'' \<mapsto> ''localhost:8001/ref'']"
         and endpoint = "''localhost:8001''" and name = "''ref''",
       THEN conjunct2, THEN conjunct1]
    by simp
  have n: "(0::nat) < num_chunks (length [[1, 2], [3, 4::int]])"
    by (simp add: num_chunks_pos)
  have c: "ref_model failing_server local_client [[1, 2], [3, 4]] [[1, 1], [1, 1]]
       = Inl (RemoteError ''unavailable'')"
    using ref_scorer_construction
      [where i = 0 and all_tokens = "[[1, 2], [3, 4]]" and srv = failing_server
         and cl = local_client and attention_masks = "[[1, 1], [1, 1]]"
         and e = "RemoteError ''unavailable''",
       THEN conjunct2, THEN conjunct2] n
    by (simp add: failing_server_def)
  show ?thesis using a b c by simp
qed

section \<open>Properties of the score statistics, scaling and clipping\<close>

lemma update_statistics_fields:
  "config (update_statistics ext self scores) = config self"
  "tokenizer (update_statistics ext self scores) = tokenizer self"
  "stop_sequences (update_statistics ext self scores) = stop_sequences self"
  "ref_client (update_statistics ext self scores) = ref_client self"
  "kl_ctl_value (update_statistics ext self scores) = kl_ctl_value self"
  "iterator_pos (update_statistics ext self scores) = iterator_pos self"
  "store (update_statistics ext self scores) = store self"
  by (simp_all add: update_statistics_def Let_def)


lemma update_statistics_ref_unset:
  "ref_mean self = None \<Longrightarrow>
     ref_mean (update_statistics ext self scores) = Some (tensor_mean ext scores) \<and>
     ref_std (update_statistics ext self scores) = Some (tensor_std ext scores)"
  by (simp add: update_statistics_def Let_def)


lemma clip_in_range:
  fixes c s :: real
  assumes "0 < c"
  shows "- c \<le> min (max s (- c)) c \<and> min (max s (- c)) c \<le> c"
  using assms by (simp add: min_def max_def)

text \<open>
  Claim C5. In an iteration the scores are divided by the running standard deviation
  (as the update with the scores of this iteration left it) in mode \<open>running\<close>, by the
  reference standard deviation in mode \<open>ref\<close> (the one of this batch when the reference
  was unset), and are left as they are, without an exception, in any other mode. Then a
  positive clip range \<open>c\<close> maps every score \<open>s\<close> to \<open>min (max s (- c)) c\<close>, which lies
  in \<open>[- c, c]\<close>; no clip range, or 0, leaves the scores.
\<close>

theorem shape_scores_modes:
  fixes ext :: "('l, 'rm) collaborators" and self :: "'rm trainer" and scores :: "real list"
  defines "self1 \<equiv> update_statistics ext self scores"
  shows
  "(scale_reward (config self) = Some ''running'' \<longrightarrow>
      shape_scores ext self scores =
        Inr (self1, clip_scores (config self)
               (map (\<lambda>s. s / moments_std ext (running_moments self1)) scores)))
   \<and> (scale_reward (config self) = Some ''ref'' \<and> ref_std self1 = Some sd \<longrightarrow>
      shape_scores ext self scores =
        Inr (self1, clip_scores (config self) (map (\<lambda>s. s / sd) scores)))
   \<and> (scale_reward (config self) = Some ''ref'' \<and> ref_mean self = None \<longrightarrow>
      shape_scores ext self scores =
        Inr (self1, clip_scores (config self) (map (\<lambda>s. s / tensor_std ext scores) scores)))
   \<and> (scale_reward (config self) \<noteq> Some ''running''
        \<and> scale_reward (config self) \<noteq> Some ''ref'' \<longrightarrow>
      shape_scores ext self scores = Inr (self1, clip_scores (config self) scores))
   \<and> (cliprange_reward cfg = Some c \<and> 0 < c \<longrightarrow>
      clip_scores cfg xs = map (\<lambda>s. min (max s (- c)) c) xs
      \<and> (\<forall>y \<in> set (clip_scores cfg xs). - c \<le> y \<and> y \<le> c))
   \<and> (cliprange_reward cfg = None \<or> cliprange_reward cfg = Some 0 \<longrightarrow>
      clip_scores cfg xs = xs)"
proof (intro conjI impI)
  assume "scale_reward (config self) = Some ''running''"
  then show "shape_scores ext self scores =
        Inr (self1, clip_scores (config self)
               (map (\<lambda>s. s / moments_std ext (running_moments self1)) scores))"
    by (simp add: shape_scores_def scale_scores_def self1_def Let_def update_statistics_fields)
next
  assume "scale_reward (config self) = Some ''ref'' \<and> ref_std self1 = Some sd"
  then show "shape_scores ext self scores =
        Inr (self1, clip_scores (config self) (map (\<lambda>s. s / sd) scores))"
    by (simp add: shape_scores_def scale_scores_def self1_def Let_def update_statistics_fields)
next
  assume h: "scale_reward (config self) = Some ''ref'' \<and> ref_mean self = None"
  then have "ref_std self1 = Some (tensor_std ext scores)"
    by (simp add: self1_def update_statistics_ref_unset)
  with h show "shape_scores ext self scores =
        Inr (self1, clip_scores (config self) (map (\<lambda>s. s / tensor_std ext scores) scores))"
    by (simp add: shape_scores_def scale_scores_def self1_def Let_def update_statistics_fields)
next
  assume "scale_reward (config self) \<noteq> Some ''running''
        \<and> scale_reward (config self) \<noteq> Some ''ref''"
  then show "shape_scores ext self scores = Inr (self1, clip_scores (config self) scores)"
    by (simp add: shape_scores_def scale_scores_def self1_def Let_def update_statistics_fields)
next
  assume h: "cliprange_reward cfg = Some c \<and> 0 < c"
  then show "clip_scores cfg xs = map (\<lambda>s. min (max s (- c)) c) xs"
    by (simp add: clip_scores_def)
  from h show "\<forall>y \<in> set (clip_scores cfg xs). - c \<le> y \<and> y \<le> c"
    using clip_in_range [of c] by (auto simp: clip_scores_def)
next
  assume "cliprange_reward cfg = None \<or> cliprange_reward cfg = Some 0"
  then show "clip_scores cfg xs = xs"
    by (auto simp: clip_scores_def)
qed

text \<open>
  The theorem at the scores \<open>[3, - 1]\<close>: running standard deviation 2, reference standard
  deviation 4 taken from the batch, a reference fixed at \<open>1 / 2\<close> beforehand, no scaling;
  clip range 2 throughout.
\<close>

theorem shape_scores_modes_witness:
  "map_sum id snd (shape_scores toy
      (toy_trainer\<lparr>config := causal_config\<lparr>scale_reward := Some ''running''\<rparr>\<rparr>) [3, - 1])
     = Inr [3 / 2, - 1 / 2]
   \<and> map_sum id snd (shape_scores toy
      (toy_trainer\<lparr>config := causal_config\<lparr>scale_reward := Some ''ref''\<rparr>\<rparr>) [3, - 1])
     = Inr [3 / 4, - 1 / 4]
   \<and> map_sum id snd (shape_scores toy
      (toy_trainer\<lparr>config := causal_config\<lparr>scale_reward := Some ''ref''\<rparr>,
                    ref_mean := Some 0, ref_std := Some (1 / 2)\<rparr>) [3, - 1])
     = Inr [2, - 2]
   \<and> map_sum id snd (shape_scores toy toy_trainer [3, - 1]) = Inr [2, - 1]
   \<and> clip_scores causal_config [3, - 1, - 5] = [2, - 1, - 2]
   \<and> clip_scores (causal_config\<lparr>cliprange_reward := None\<rparr>) [3, - 1, - 5] = [3, - 1, - 5]"
proof -
  let ?run = "toy_trainer\<lparr>config := causal_config\<lparr>scale_reward := Some ''running''\<rparr>\<rparr>"
  let ?ref = "toy_trainer\<lparr>config := causal_config\<lparr>scale_reward := Some ''ref''\<rparr>\<rparr>"
  let ?set = "toy_trainer\<lparr>config := causal_config\<lparr>scale_reward := Some ''ref''\<rparr>,
                    ref_mean := Some 0, ref_std := Some (1 / 2)\<rparr>"
  note defs = toy_trainer_def toy_def causal_config_def update_statistics_def clip_scores_def
  have a: "map_sum id snd (shape_scores toy ?run [3, - 1]) = Inr [3 / 2, - 1 / 2]"
    using shape_scores_modes [where ext = toy and self = ?run and scores = "[3, - 1]",
        THEN conjunct1]
    by (simp add: defs)
  have b: "map_sum id snd (shape_scores toy ?ref [3, - 1]) = Inr [3 / 4, - 1 / 4]"
    using shape_scores_modes [where ext = toy and self = ?ref and scores = "[3, - 1]",
        THEN conjunct2, THEN conjunct2, THEN conjunct1]
    by (simp add: defs)
  have c: "map_sum id snd (shape_scores toy ?set [3, - 1]) = Inr [2, - 2]"
    using shape_scores_modes [where ext = toy and self = ?set and scores = "[3, - 1]"
        and sd = "1 / 2", THEN conjunct2, THEN conjunct1]
    by (simp add: defs)
  have d: "map_sum id snd (shape_scores toy toy_trainer [3, - 1]) = Inr [2, - 1]"
    using shape_scores_modes [where ext = toy and self = toy_trainer and scores = "[3, - 1]",
        THEN conjunct2, THEN conjunct2, THEN conjunct2, THEN conjunct1]
    by (simp add: defs)
  have e: "clip_scores causal_config [3, - 1, - 5] = [2, - 1, - 2]"
    using shape_scores_modes [where cfg = causal_config and c = 2 and xs = "[3, - 1, - 5]",
        THEN conjunct2, THEN conjunct2, THEN conjunct2, THEN conjunct2, THEN conjunct1]
    by (simp add: causal_config_def)
  have f: "clip_scores (causal_config\<lparr>cliprange_reward := None\<rparr>) [3, - 1, - 5] = [3, - 1, - 5]"
    using shape_scores_modes [where cfg = "causal_config\<lparr>cliprange_reward := None\<rparr>"
        and xs = "[3, - 1, - 5]",
        THEN conjunct2, THEN conjunct2, THEN conjunct2, THEN conjunct2, THEN conjunct2]
    by simp
  show ?thesis using a b c d e f by (simp only: simp_thms)
qed

section \<open>Properties of the rollout loop\<close>

subsection \<open>What a successful iteration went through\<close>




subsection \<open>The number of elements of an iteration\<close>









subsection \<open>Termination and invariants of the loop\<close>





subsection \<open>The call\<close>







section \<open>Properties of the replay elements\<close>

subsection \<open>Slices\<close>

lemma py_index_le: "py_index n i \<le> n"
  unfolding py_index_def by (cases "i < 0") auto

lemma length_py_slice:
  "length (py_slice xs a b) = py_index (length xs) b - py_index (length xs) a"
proof -
  have "py_index (length xs) b \<le> length xs"
    by (rule py_index_le)
  then show ?thesis
    by (simp add: py_slice_def Let_def)
qed

lemma py_slice_map: "py_slice (map f xs) a b = map f (py_slice xs a b)"
  by (simp add: py_slice_def Let_def take_map drop_map)

lemma nth_py_slice:
  assumes "j < length (py_slice xs a b)"
  shows "py_slice xs a b ! j = xs ! (py_index (length xs) a + j)"
proof -
  from assms have "j < py_index (length xs) b - py_index (length xs) a"
    by (simp add: length_py_slice)
  moreover have "py_index (length xs) b \<le> length xs"
    by (rule py_index_le)
  ultimately show ?thesis
    by (simp add: py_slice_def Let_def)
qed

lemma py_index_nonneg: "0 \<le> i \<Longrightarrow> py_index n i = min (nat i) n"
  by (simp add: py_index_def)

subsection \<open>Collecting the elements\<close>

lemma collect_nth:
  "collect rs = Inr xs \<Longrightarrow> i < length rs \<Longrightarrow> rs ! i = Inr (xs ! i)"
proof (induction rs arbitrary: xs i)
  case Nil
  then show ?case by simp
next
  case (Cons r rs)
  from Cons.prems(1) obtain x ys where r: "r = Inr x" and ys: "collect rs = Inr ys"
    and xs: "xs = x # ys"
    by (auto split: sum.splits)
  show ?case
  proof (cases i)
    case 0
    with r xs show ?thesis by simp
  next
    case (Suc k)
    with Cons.prems(2) have "k < length rs" by simp
    from Cons.IH [OF ys this] Suc xs show ?thesis by simp
  qed
qed

lemma rollout_elements_nth:
  assumes "rollout_elements lp kl prompt_tensors sample_outputs n_samples scores
             all_tokens attention_mask logits model_values ref_logits = Inr elems"
    and "ix < n_samples"
  shows "rollout_element (shape1 prompt_tensors - 1)
           (ends_of (shape1 prompt_tensors - 1) attention_mask)
           prompt_tensors sample_outputs
           (logprobs_of_labels lp (map butlast logits) (map tl all_tokens))
           (map butlast model_values)
           (kl_penalty_of kl
              (log_ratio_of (logprobs_of_labels lp (map butlast logits) (map tl all_tokens))
                 (logprobs_of_labels lp (map butlast ref_logits) (map tl all_tokens))
                 attention_mask))
           scores ix
         = Inr (elems ! ix)"
proof -
  let ?f = "rollout_element (shape1 prompt_tensors - 1)
           (ends_of (shape1 prompt_tensors - 1) attention_mask)
           prompt_tensors sample_outputs
           (logprobs_of_labels lp (map butlast logits) (map tl all_tokens))
           (map butlast model_values)
           (kl_penalty_of kl
              (log_ratio_of (logprobs_of_labels lp (map butlast logits) (map tl all_tokens))
                 (logprobs_of_labels lp (map butlast ref_logits) (map tl all_tokens))
                 attention_mask))
           scores"
  from assms(1) have c: "collect (map ?f [0 ..< n_samples]) = Inr elems"
    by (simp add: rollout_elements_def Let_def)
  have "map ?f [0 ..< n_samples] ! ix = Inr (elems ! ix)"
    by (rule collect_nth [OF c]) (simp add: assms(2))
  then show ?thesis using assms(2) by simp
qed

lemma add_score_Inr:
  assumes "add_score sl score = Inr rs"
  shows "sl \<noteq> [] \<and> length rs = length sl
         \<and> (\<forall>j < length sl. rs ! j = sl ! j + (if j + 1 = length sl then score else 0))"
proof -
  from assms have ne: "sl \<noteq> []" and rs: "rs = sl[length sl - 1 := last sl + score]"
    by (auto simp: add_score_def split: if_splits)
  have "rs ! j = sl ! j + (if j + 1 = length sl then score else 0)" if "j < length sl" for j
  proof (cases "j + 1 = length sl")
    case True
    then have "j = length sl - 1" by simp
    with that ne show ?thesis by (simp add: rs last_conv_nth)
  next
    case False
    with that show ?thesis by (simp add: rs)
  qed
  with ne rs show ?thesis by simp
qed

lemma rollout_element_Inr:
  assumes "rollout_element start ends prompt_tensors sample_outputs all_logprobs all_values
             kl_penalty scores ix = Inr e"
  shows "ix < length ends \<and> ix < length prompt_tensors \<and> ix < length sample_outputs
         \<and> ix < length all_logprobs \<and> ix < length all_values \<and> ix < length kl_penalty
         \<and> ix < length scores
         \<and> add_score (py_slice (kl_penalty ! ix) start (ends ! ix)) (scores ! ix)
             = Inr (rewards e)
         \<and> query_tensor e = prompt_tensors ! ix
         \<and> response_tensor e = sample_outputs ! ix
         \<and> logprobs e = py_slice (all_logprobs ! ix) start (ends ! ix)
         \<and> elem_values e = py_slice (all_values ! ix) start (ends ! ix)"
  using assms
  by (auto simp: rollout_element_def split: if_splits sum.splits)


lemma nth_py_slice_nonneg:
  assumes "j < length (py_slice xs a b)" and "0 \<le> a"
  shows "py_slice xs a b ! j = xs ! (nat a + j)"
proof -
  from assms(1) have "py_index (length xs) a < py_index (length xs) b"
    by (simp add: length_py_slice)
  also have "\<dots> \<le> length xs" by (rule py_index_le)
  finally have "py_index (length xs) a = nat a"
    using assms(2) by (simp add: py_index_nonneg min_def split: if_splits)
  with nth_py_slice [OF assms(1)] show ?thesis by simp
qed

subsection \<open>The reward sequence\<close>

lemma py_slice_in_bounds:
  assumes "j < length (py_slice xs a b)" and "0 \<le> a"
  shows "nat a + j < length xs"
proof -
  from assms(1) have lt: "py_index (length xs) a + j < py_index (length xs) b"
    by (simp add: length_py_slice)
  also have "\<dots> \<le> length xs" by (rule py_index_le)
  finally have "py_index (length xs) a + j < length xs" .
  moreover from lt have "py_index (length xs) a < py_index (length xs) b" by simp
  then have "py_index (length xs) a < length xs"
    using py_index_le [of "length xs" b] by simp
  then have "py_index (length xs) a = nat a"
    using assms(2) by (simp add: py_index_nonneg min_def split: if_splits)
  ultimately show ?thesis by simp
qed

lemma logprobs_of_labels_nth:
  assumes ix: "ix < length (logprobs_of_labels lp (map butlast logits) (map tl toks))"
    and p: "p < length (logprobs_of_labels lp (map butlast logits) (map tl toks) ! ix)"
  shows "logprobs_of_labels lp (map butlast logits) (map tl toks) ! ix ! p
           = lp (logits ! ix ! p) (toks ! ix ! (p + 1))"
proof -
  from ix have a: "ix < length logits" and b: "ix < length toks"
    by (simp_all add: logprobs_of_labels_def)
  then have row: "logprobs_of_labels lp (map butlast logits) (map tl toks) ! ix
                    = map2 lp (butlast (logits ! ix)) (tl (toks ! ix))"
    by (simp add: logprobs_of_labels_def)
  from p have c: "p < length (butlast (logits ! ix))" and d: "p < length (tl (toks ! ix))"
    unfolding row by simp_all
  from c d show ?thesis
    unfolding row by (simp add: nth_butlast nth_tl)
qed

lemma log_ratio_of_nth:
  assumes ix: "ix < length (log_ratio_of lps rlps msk)"
    and p: "p < length (log_ratio_of lps rlps msk ! ix)"
  shows "ix < length lps \<and> ix < length rlps \<and> ix < length msk
       \<and> p < length (lps ! ix) \<and> p < length (rlps ! ix) \<and> p < length (msk ! ix)
       \<and> log_ratio_of lps rlps msk ! ix ! p
           = (lps ! ix ! p - rlps ! ix ! p) * real_of_int (msk ! ix ! p)"
proof -
  from ix have a: "ix < length lps" and b: "ix < length rlps" and c: "ix < length msk"
    by (simp_all add: log_ratio_of_def)
  then have row: "log_ratio_of lps rlps msk ! ix
                    = map2 (\<lambda>x y. x * real_of_int y)
                        (map2 (-) (lps ! ix) (rlps ! ix)) (butlast (msk ! ix))"
    by (simp add: log_ratio_of_def)
  from p have d: "p < length (lps ! ix)" and e: "p < length (rlps ! ix)"
    and f: "p < length (butlast (msk ! ix))"
    unfolding row by simp_all
  from f have g: "p < length (msk ! ix)" by simp
  from d e f have "log_ratio_of lps rlps msk ! ix ! p
           = (lps ! ix ! p - rlps ! ix ! p) * real_of_int (msk ! ix ! p)"
    unfolding row by (simp add: nth_butlast)
  with a b c d e g show ?thesis by simp
qed

text \<open>
  The reward at entry \<open>j\<close> of an element, in the log-probabilities of the realized next
  token and the attention mask, at position \<open>start + j\<close> of the row.
\<close>

lemma rewards_nth:
  assumes run: "rollout_elements lp kl prompt_tensors sample_outputs n_samples scores
                  all_tokens attention_mask logits model_values ref_logits = Inr elems"
    and ix: "ix < n_samples"
    and width: "1 \<le> shape1 prompt_tensors"
    and j: "j < length (rewards (elems ! ix))"
  shows "ix < length attention_mask
       \<and> nat (shape1 prompt_tensors - 1) + j < length (attention_mask ! ix)
       \<and> rewards (elems ! ix) ! j =
           kl * (- ((lp (logits ! ix ! (nat (shape1 prompt_tensors - 1) + j))
                       (all_tokens ! ix ! (nat (shape1 prompt_tensors - 1) + j + 1))
                     - lp (ref_logits ! ix ! (nat (shape1 prompt_tensors - 1) + j))
                         (all_tokens ! ix ! (nat (shape1 prompt_tensors - 1) + j + 1)))
                    * real_of_int (attention_mask ! ix ! (nat (shape1 prompt_tensors - 1) + j))))
           + (if j + 1 = length (rewards (elems ! ix)) then scores ! ix else 0)"
proof -
  let ?lps = "logprobs_of_labels lp (map butlast logits) (map tl all_tokens)"
  let ?rlps = "logprobs_of_labels lp (map butlast ref_logits) (map tl all_tokens)"
  let ?lr = "log_ratio_of ?lps ?rlps attention_mask"
  let ?start = "shape1 prompt_tensors - 1"
  let ?ends = "ends_of ?start attention_mask"
  let ?e = "elems ! ix"
  let ?g = "\<lambda>x :: real. kl * (- x)"
  let ?p = "nat ?start + j"
  from rollout_element_Inr [OF rollout_elements_nth [OF run ix]]
  have inb: "ix < length (kl_penalty_of kl ?lr)"
    and add: "add_score (py_slice (kl_penalty_of kl ?lr ! ix) ?start (?ends ! ix)) (scores ! ix)
              = Inr (rewards ?e)"
    by simp_all
  from inb have ixlr: "ix < length ?lr" by (simp add: kl_penalty_of_def)
  then have row: "kl_penalty_of kl ?lr ! ix = map ?g (?lr ! ix)"
    by (simp add: kl_penalty_of_def)
  let ?w = "py_slice (?lr ! ix) ?start (?ends ! ix)"
  have sl: "py_slice (kl_penalty_of kl ?lr ! ix) ?start (?ends ! ix) = map ?g ?w"
    by (simp add: row py_slice_map)
  from add_score_Inr [OF add [unfolded sl]]
  have len: "length (rewards ?e) = length ?w"
    and pt: "\<forall>j < length ?w. rewards ?e ! j =
               map ?g ?w ! j + (if j + 1 = length ?w then scores ! ix else 0)"
    by simp_all
  from j len have jw: "j < length ?w" by simp
  from width have s0: "0 \<le> ?start" by simp
  from nth_py_slice_nonneg [OF jw s0] have at: "?w ! j = ?lr ! ix ! ?p" .
  from py_slice_in_bounds [OF jw s0] have pb: "?p < length (?lr ! ix)" .
  from log_ratio_of_nth [OF ixlr pb]
  have b1: "ix < length ?lps" and b2: "ix < length ?rlps" and b3: "ix < length attention_mask"
    and b4: "?p < length (?lps ! ix)" and b5: "?p < length (?rlps ! ix)"
    and b6: "?p < length (attention_mask ! ix)"
    and lr: "?lr ! ix ! ?p = (?lps ! ix ! ?p - ?rlps ! ix ! ?p)
                              * real_of_int (attention_mask ! ix ! ?p)"
    by simp_all
  note l1 = logprobs_of_labels_nth [OF b1 b4]
  note l2 = logprobs_of_labels_nth [OF b2 b5]
  from pt jw len have "rewards ?e ! j = kl * (- (?w ! j))
          + (if j + 1 = length (rewards ?e) then scores ! ix else 0)"
    by simp
  then have "rewards ?e ! j = kl * (- ((lp (logits ! ix ! ?p) (all_tokens ! ix ! (?p + 1))
                     - lp (ref_logits ! ix ! ?p) (all_tokens ! ix ! (?p + 1)))
                    * real_of_int (attention_mask ! ix ! ?p)))
          + (if j + 1 = length (rewards ?e) then scores ! ix else 0)"
    unfolding at lr l1 l2 .
  with b3 b6 show ?thesis by simp
qed

lemma rewards_nonempty:
  assumes run: "rollout_elements lp kl prompt_tensors sample_outputs n_samples scores
                  all_tokens attention_mask logits model_values ref_logits = Inr elems"
    and ix: "ix < n_samples"
  shows "rewards (elems ! ix) \<noteq> []"
proof -
  from rollout_element_Inr [OF rollout_elements_nth [OF run ix]]
  obtain sl sc where "add_score sl sc = Inr (rewards (elems ! ix))" by blast
  from add_score_Inr [OF this] show ?thesis by auto
qed

subsection \<open>The shapes of the forward passes\<close>

lemma forward_pass_Inr:
  assumes "forward_pass ext self prompt_tensors sample_outputs
             = Inr (all_tokens, attention_mask, logits, model_values, ref_logits)"
  obtains pad where "pad_token_id (tokenizer self) = Some pad"
    and "length prompt_tensors = length sample_outputs"
    and "all_tokens = map2 (@) prompt_tensors sample_outputs"
    and "attention_mask = map (map (\<lambda>t. if t \<noteq> pad then 1 else 0)) all_tokens"
    and "model_forward ext all_tokens attention_mask = (logits, model_values)"
    and "case forward_hydra ext of
           Some hydra \<Rightarrow> ref_logits = hydra all_tokens attention_mask
         | None \<Rightarrow> ref_model (infer ext) (ref_client self) all_tokens attention_mask
                    = Inr ref_logits"
  using assms
  unfolding forward_pass_def Let_def
  by (auto split: if_splits option.splits sum.splits prod.splits)





subsection \<open>The length of the slices\<close>













subsection \<open>The rewards of an example\<close>

text \<open>
  Claim C2, as amended. Take example \<open>ix\<close> of a batch with prompts of width at least one;
  position \<open>j\<close> of its reward sequence belongs to position \<open>start + j\<close> of its row of
  tokens (prompt, then response), \<open>start\<close> being the last position of the prompt. The
  reward sequence is not empty. Where the token at that position is not the padding
  token, the reward is \<open>- kl\<close> times the difference of the log-probabilities that the
  policy and the reference model give to the next token of the row; where it is the
  padding token, that term is 0. The score of the example is added to the last entry
  and to no other.
\<close>

theorem reward_sequence:
  assumes run: "batch_elements ext self prompt_tensors sample_outputs n_samples scores = Inr elems"
    and fp: "forward_pass ext self prompt_tensors sample_outputs
               = Inr (all_tokens, msk, logits, model_values, ref_logits)"
    and ix: "ix < n_samples"
    and width: "1 \<le> shape1 prompt_tensors"
    and pad: "pad_token_id (tokenizer self) = Some pad"
  shows "rewards (elems ! ix) \<noteq> []
       \<and> all_tokens ! ix = prompt_tensors ! ix @ sample_outputs ! ix
       \<and> (\<forall>j < length (rewards (elems ! ix)).
            rewards (elems ! ix) ! j =
              kl_ctl_value self *
                (- (if all_tokens ! ix ! (nat (shape1 prompt_tensors - 1) + j) = pad then 0
                    else logprob_of_label ext
                           (logits ! ix ! (nat (shape1 prompt_tensors - 1) + j))
                           (all_tokens ! ix ! (nat (shape1 prompt_tensors - 1) + j + 1))
                       - logprob_of_label ext
                           (ref_logits ! ix ! (nat (shape1 prompt_tensors - 1) + j))
                           (all_tokens ! ix ! (nat (shape1 prompt_tensors - 1) + j + 1))))
              + (if j + 1 = length (rewards (elems ! ix)) then scores ! ix else 0))"
proof -
  let ?s = "nat (shape1 prompt_tensors - 1)"
  let ?e = "elems ! ix"
  from run fp have re: "rollout_elements (logprob_of_label ext) (kl_ctl_value self)
           prompt_tensors sample_outputs n_samples scores
           all_tokens msk logits model_values ref_logits = Inr elems"
    by (simp add: batch_elements_def)
  from fp pad have rows: "length prompt_tensors = length sample_outputs"
    and toks: "all_tokens = map2 (@) prompt_tensors sample_outputs"
    and m: "msk = map (map (\<lambda>t. if t \<noteq> pad then 1 else 0)) all_tokens"
    by (auto elim!: forward_pass_Inr)
  from rollout_element_Inr [OF rollout_elements_nth [OF re ix]]
  have ixP: "ix < length prompt_tensors" and ixS: "ix < length sample_outputs"
    by simp_all
  have row: "all_tokens ! ix = prompt_tensors ! ix @ sample_outputs ! ix"
    using ixP ixS by (simp add: toks)
  have ne: "rewards ?e \<noteq> []"
    using re ix by (rule rewards_nonempty)
  have "rewards ?e ! j =
              kl_ctl_value self *
                (- (if all_tokens ! ix ! (?s + j) = pad then 0
                    else logprob_of_label ext (logits ! ix ! (?s + j))
                           (all_tokens ! ix ! (?s + j + 1))
                       - logprob_of_label ext (ref_logits ! ix ! (?s + j))
                           (all_tokens ! ix ! (?s + j + 1))))
              + (if j + 1 = length (rewards ?e) then scores ! ix else 0)"
    if j: "j < length (rewards ?e)" for j
  proof -
    from rewards_nth [OF re ix width j]
    have b1: "ix < length msk" and b2: "?s + j < length (msk ! ix)"
      and r: "rewards ?e ! j =
           kl_ctl_value self *
             (- ((logprob_of_label ext (logits ! ix ! (?s + j)) (all_tokens ! ix ! (?s + j + 1))
                  - logprob_of_label ext (ref_logits ! ix ! (?s + j))
                      (all_tokens ! ix ! (?s + j + 1)))
                 * real_of_int (msk ! ix ! (?s + j))))
           + (if j + 1 = length (rewards ?e) then scores ! ix else 0)"
      by simp_all
    from b1 have b3: "ix < length all_tokens" by (simp add: m)
    with b2 have b4: "?s + j < length (all_tokens ! ix)" by (simp add: m)
    from b3 b4 have "msk ! ix ! (?s + j) = (if all_tokens ! ix ! (?s + j) \<noteq> pad then 1 else 0)"
      by (simp add: m)
    with r show ?thesis by simp
  qed
  with ne row show ?thesis by blast
qed


text \<open>
  The theorem at a batch of one prompt of width 2, padded on the right, with the KL
  coefficient 1 and the score 4. The policy logit of a token \<open>t\<close> is \<open>2 t + 1\<close>, the
  reference logit \<open>t\<close>, and the log-probability of a label is the logit plus the label,
  so that the log-ratio at a position is its token plus one. The rewards belong to the
  positions 1, 2 and 3 of the row \<open>[7, 0, 5, 2, 0]\<close>: the first is on the padding of the
  prompt.
\<close>

theorem reward_sequence_witness:
  "\<exists>elems.
     batch_elements graded toy_trainer [[7, 0]] [[5, 2, 0]] 1 [4] = Inr elems
     \<and> length (rewards (elems ! 0)) = 3
     \<and> rewards (elems ! 0) ! 0 = 0
     \<and> rewards (elems ! 0) ! 1 = - 6
     \<and> rewards (elems ! 0) ! 2 = 1"
proof -
  let ?P = "[[7, 0 :: int]]"
  let ?S = "[[5, 2, 0 :: int]]"
  have ev: "map_sum id (map (\<lambda>e. length (rewards e)))
              (batch_elements graded toy_trainer ?P ?S 1 [4]) = Inr [3]"
    by code_simp
  then obtain elems where run: "batch_elements graded toy_trainer ?P ?S 1 [4] = Inr elems"
    and lens: "map (\<lambda>e. length (rewards e)) elems = [3]"
    by (cases "batch_elements graded toy_trainer ?P ?S 1 [4]") auto
  from lens have len: "length (rewards (elems ! 0)) = 3"
    by (cases elems) auto
  have fp: "forward_pass graded toy_trainer ?P ?S
              = Inr ([[7, 0, 5, 2, 0]], [[1, 0, 1, 1, 0]], [[15, 1, 11, 5, 1]],
                     [[7, 0, 5, 2, 0]], [[7, 0, 5, 2, 0]])"
    by code_simp
  have ix: "(0 :: nat) < 1" by simp
  have width: "1 \<le> shape1 ?P" by (simp add: shape1_def)
  have pad: "pad_token_id (tokenizer toy_trainer) = Some 0"
    by (simp add: toy_trainer_def char_tokenizer_def)
  have lp: "logprob_of_label graded = (\<lambda>l t. l + real_of_int t)"
    by (simp add: graded_def)
  have kl: "kl_ctl_value toy_trainer = 1"
    by (simp add: toy_trainer_def)
  note inst = reward_sequence [OF run fp ix width pad, THEN conjunct2, THEN conjunct2,
      rule_format, unfolded len lp kl]
  have "rewards (elems ! 0) ! 0 = 0"
    using inst [of 0] by (simp add: shape1_def)
  moreover have "rewards (elems ! 0) ! 1 = - 6"
    using inst [of 1] by (simp add: shape1_def)
  moreover have "rewards (elems ! 0) ! 2 = 1"
    using inst [of 2] by (simp add: shape1_def)
  ultimately show ?thesis using run len by blast
qed

text \<open>
  Claim C2 as stated fails on that batch. The first entry of the rewards is not the
  last one and belongs to position 1 of the row, where the policy logit is 1, the
  reference logit 0 and the next token 5: the log-ratio is 1 and \<open>- kl\<close> times the
  log-ratio is \<open>- 1\<close>, but the reward is 0, because the token at position 1 is padding.
\<close>

theorem reward_sequence_counterexample:
  "batch_elements graded toy_trainer [[7, 0]] [[5, 2, 0]] 1 [4]
     = Inr [\<lparr>query_tensor = [7, 0], response_tensor = [5, 2, 0],
              logprobs = [6, 13, 5], elem_values = [0, 5, 2], rewards = [0, - 6, 1]\<rparr>]
   \<and> forward_pass graded toy_trainer [[7, 0]] [[5, 2, 0]]
       = Inr ([[7, 0, 5, 2, 0]], [[1, 0, 1, 1, 0]], [[15, 1, 11, 5, 1]],
              [[7, 0, 5, 2, 0]], [[7, 0, 5, 2, 0]])
   \<and> kl_ctl_value toy_trainer * - (logprob_of_label graded 1 5 - logprob_of_label graded 0 5)
       = - 1"
  by code_simp

section \<open>Properties of \<^verbatim>\<open>decode\<close>\<close>

subsection \<open>Searching a string\<close>

lemma str_find_ge: "- 1 \<le> str_find s sub"
  by (induction s) (simp_all add: Let_def)

lemma str_find_neg: "str_find s sub < 0 \<longleftrightarrow> str_find s sub = - 1"
  using str_find_ge [of s sub] by auto

text \<open>A result that is not negative is the least position where the string occurs.\<close>

lemma str_find_eqI:
  assumes "prefix sub (drop i s)" and "i \<le> length s"
    and "\<forall>k < i. \<not> prefix sub (drop k s)"
  shows "str_find s sub = int i"
  using assms
proof (induction s arbitrary: i)
  case Nil
  then show ?case by simp
next
  case (Cons c s)
  show ?case
  proof (cases i)
    case 0
    with Cons.prems(1) show ?thesis by simp
  next
    case (Suc j)
    with Cons.prems(3) have no0: "\<not> prefix sub (c # s)" by force
    have "prefix sub (drop j s)" using Cons.prems(1) Suc by simp
    moreover have "j \<le> length s" using Cons.prems(2) Suc by simp
    moreover have "\<forall>k < j. \<not> prefix sub (drop k s)"
    proof (intro allI impI)
      fix k assume "k < j"
      then have "Suc k < i" using Suc by simp
      with Cons.prems(3) have "\<not> prefix sub (drop (Suc k) (c # s))" by blast
      then show "\<not> prefix sub (drop k s)" by simp
    qed
    ultimately have "str_find s sub = int j" by (rule Cons.IH)
    with no0 Suc show ?thesis by (simp add: Let_def)
  qed
qed

lemma str_find_found:
  assumes "0 \<le> str_find s sub"
  shows "nat (str_find s sub) \<le> length s
       \<and> prefix sub (drop (nat (str_find s sub)) s)
       \<and> (\<forall>k < nat (str_find s sub). \<not> prefix sub (drop k s))"
  using assms
proof (induction s)
  case Nil
  then show ?case by (simp split: if_splits)
next
  case (Cons c s)
  show ?case
  proof (cases "prefix sub (c # s)")
    case True
    then show ?thesis by simp
  next
    case False
    with Cons.prems have r: "0 \<le> str_find s sub"
      and eq: "str_find (c # s) sub = str_find s sub + 1"
      by (auto simp: Let_def split: if_splits)
    from Cons.IH [OF r] have ih1: "nat (str_find s sub) \<le> length s"
      and ih2: "prefix sub (drop (nat (str_find s sub)) s)"
      and ih3: "\<forall>k < nat (str_find s sub). \<not> prefix sub (drop k s)"
      by simp_all
    have n: "nat (str_find (c # s) sub) = Suc (nat (str_find s sub))"
      using r eq by simp
    have "\<not> prefix sub (drop k (c # s))" if "k < Suc (nat (str_find s sub))" for k
    proof (cases k)
      case 0
      with False show ?thesis by simp
    next
      case (Suc j)
      with that ih3 show ?thesis by simp
    qed
    with ih1 ih2 show ?thesis by (simp add: n del: str_find.simps)
  qed
qed

lemma str_find_none:
  assumes "str_find s sub < 0" and "k \<le> length s"
  shows "\<not> prefix sub (drop k s)"
proof
  assume occ: "prefix sub (drop k s)"
  define i where "i = (LEAST j. j \<le> length s \<and> prefix sub (drop j s))"
  have "i \<le> length s \<and> prefix sub (drop i s)"
    unfolding i_def by (rule LeastI [of _ k]) (simp add: assms(2) occ)
  moreover have "\<forall>j < i. \<not> prefix sub (drop j s)"
  proof (intro allI impI notI)
    fix j assume "j < i" and "prefix sub (drop j s)"
    moreover from \<open>j < i\<close> \<open>i \<le> length s \<and> prefix sub (drop i s)\<close> have "j \<le> length s" by simp
    ultimately show False
      unfolding i_def using not_less_Least by blast
  qed
  ultimately have "str_find s sub = int i" by (intro str_find_eqI) simp_all
  with assms(1) show False by simp
qed


lemma prefix_append_short:
  assumes "prefix a (b @ z)" and "length a \<le> length b"
  shows "prefix a b"
  using assms by (auto simp: prefix_append)

text \<open>The first occurrence in a prefix is the first occurrence in the whole text.\<close>

lemma str_find_prefix:
  assumes p: "prefix s text" and f: "0 \<le> str_find s sub"
  shows "str_find text sub = str_find s sub"
proof -
  let ?i = "nat (str_find s sub)"
  from str_find_found [OF f] have le: "?i \<le> length s"
    and occ: "prefix sub (drop ?i s)"
    and least: "\<forall>k < ?i. \<not> prefix sub (drop k s)"
    by simp_all
  from p obtain z where whole: "text = s @ z" by (auto simp: prefix_def)
  have "prefix sub (drop ?i text)"
    using occ le by (simp add: whole)
  moreover have "?i \<le> length text" using le by (simp add: whole)
  moreover have "\<forall>k < ?i. \<not> prefix sub (drop k text)"
  proof (intro allI impI notI)
    fix k assume k: "k < ?i" and o: "prefix sub (drop k text)"
    from occ have "length sub \<le> length s - ?i" by (auto dest: prefix_length_le)
    with k le have "length sub \<le> length (drop k s)" by simp
    moreover from o k le have "prefix sub (drop k s @ z)" by (simp add: whole)
    ultimately have "prefix sub (drop k s)" by (rule prefix_append_short [rotated])
    with least k show False by blast
  qed
  ultimately have "str_find text sub = int ?i" by (rule str_find_eqI)
  with f show ?thesis by simp
qed

lemma str_find_absent_prefix:
  assumes "prefix s text" and "str_find text sub < 0"
  shows "str_find s sub < 0"
proof (rule ccontr)
  assume "\<not> str_find s sub < 0"
  then have "0 \<le> str_find s sub" by simp
  from str_find_prefix [OF assms(1) this] assms(2) this show False by simp
qed

text \<open>Before its first occurrence a string that is not empty does not occur.\<close>

lemma str_find_before_first:
  assumes f: "0 \<le> str_find s sub" and ne: "sub \<noteq> []"
    and p: "prefix u (take (nat (str_find s sub)) s)"
  shows "str_find u sub < 0"
proof (rule ccontr)
  assume "\<not> str_find u sub < 0"
  then have fu: "0 \<le> str_find u sub" by simp
  have pu: "prefix u s" using p take_is_prefix prefix_order.trans by blast
  from str_find_prefix [OF pu fu] have eq: "str_find u sub = str_find s sub" by simp
  from str_find_found [OF fu] have "prefix sub (drop (nat (str_find u sub)) u)" by simp
  then have "length sub \<le> length u - nat (str_find u sub)" by (auto dest: prefix_length_le)
  moreover from p have "length u \<le> nat (str_find s sub)"
    by (auto dest: prefix_length_le)
  ultimately have "length sub = 0" using eq by simp
  with ne show False by simp
qed

subsection \<open>Trimming at the stop strings\<close>

lemma rstrip_prefix: "prefix (rstrip s) s"
proof -
  have "s = rev (dropWhile is_space (rev s)) @ rev (takeWhile is_space (rev s))"
    by (metis rev_append rev_rev_ident takeWhile_dropWhile_id)
  then show ?thesis unfolding rstrip_def by (metis prefixI)
qed

lemma rstrip_no_trailing_space: "rstrip s = [] \<or> \<not> is_space (last (rstrip s))"
proof (cases "dropWhile is_space (rev s)")
  case Nil
  then show ?thesis by (simp add: rstrip_def)
next
  case (Cons c cs)
  then have "\<not> is_space c" by (metis hd_dropWhile list.distinct(1) list.sel(1))
  with Cons show ?thesis by (simp add: rstrip_def)
qed

lemma py_slice_to_nat: "0 \<le> i \<Longrightarrow> py_slice_to s i = take (nat i) s"
  by (simp add: py_slice_to_def py_index_nonneg min_def)

lemma trim_stops_kept: "snd (trim_stops stops s True) = True"
  by (induction stops arbitrary: s) (simp_all add: Let_def)

lemma trim_stops_none:
  "\<forall>stop \<in> set stops. str_find s stop < 0 \<Longrightarrow> trim_stops stops s t = (s, t)"
  by (induction stops arbitrary: s t) (simp_all add: Let_def)

text \<open>
  Either no stop string applied, or the result is the text cut at the first occurrence
  of one of the stop strings, and rstripped.
\<close>

lemma trim_stops_result:
  assumes "prefix s text" and "trim_stops stops s t = (out, tr)"
  shows "prefix out text
       \<and> (out = s \<and> tr = t
          \<or> tr \<and> (\<exists>stop \<in> set stops. 0 \<le> str_find text stop
                     \<and> out = rstrip (take (nat (str_find text stop)) text)))"
  using assms
proof (induction stops arbitrary: s t)
  case Nil
  then show ?case by simp
next
  case (Cons stop stops)
  show ?case
  proof (cases "0 \<le> str_find s stop")
    case False
    with Cons.prems(2) have "trim_stops stops s t = (out, tr)" by (simp add: Let_def)
    from Cons.IH [OF Cons.prems(1) this] show ?thesis by auto
  next
    case True
    let ?i = "str_find s stop"
    let ?s2 = "rstrip (take (nat ?i) s)"
    from True Cons.prems(2) have rec: "trim_stops stops ?s2 True = (out, tr)"
      by (simp add: Let_def py_slice_to_nat)
    from str_find_prefix [OF Cons.prems(1) True] have same: "str_find text stop = ?i" .
    from str_find_found [OF True] have "nat ?i \<le> length s" by simp
    with Cons.prems(1) have tk: "take (nat ?i) s = take (nat ?i) text"
      by (auto simp: prefix_def)
    have "prefix ?s2 (take (nat ?i) s)" by (rule rstrip_prefix)
    also have "prefix (take (nat ?i) s) text" unfolding tk by (rule take_is_prefix)
    finally have p2: "prefix ?s2 text" .
    from Cons.IH [OF p2 rec]
    have pre: "prefix out text"
      and alt: "out = ?s2 \<and> tr = True
          \<or> tr \<and> (\<exists>stop \<in> set stops. 0 \<le> str_find text stop
                     \<and> out = rstrip (take (nat (str_find text stop)) text))"
      by simp_all
    from alt show ?thesis
    proof
      assume "out = ?s2 \<and> tr = True"
      with True same tk pre show ?thesis by auto
    next
      assume "tr \<and> (\<exists>stop \<in> set stops. 0 \<le> str_find text stop
                     \<and> out = rstrip (take (nat (str_find text stop)) text))"
      with pre show ?thesis by auto
    qed
  qed
qed

lemma trim_stops_prefix: "trim_stops stops s t = (out, tr) \<Longrightarrow> prefix out s"
  using trim_stops_result [of s s stops t out tr] by simp

text \<open>A stop string that occurs in the text makes the flag true.\<close>

lemma trim_stops_trimmed:
  assumes "\<exists>stop \<in> set stops. 0 \<le> str_find s stop"
  shows "snd (trim_stops stops s t) = True"
  using assms
proof (induction stops arbitrary: s t)
  case Nil
  then show ?case by simp
next
  case (Cons stop stops)
  show ?case
  proof (cases "0 \<le> str_find s stop")
    case True
    then show ?thesis by (simp add: Let_def trim_stops_kept)
  next
    case False
    with Cons.prems have "\<exists>stop \<in> set stops. 0 \<le> str_find s stop" by auto
    from Cons.IH [OF this] False show ?thesis by (simp add: Let_def)
  qed
qed

text \<open>No stop string that is not empty occurs in the result.\<close>

lemma trim_stops_clean:
  assumes "trim_stops stops s t = (out, tr)"
  shows "\<forall>stop \<in> set stops. stop \<noteq> [] \<longrightarrow> str_find out stop < 0"
  using assms
proof (induction stops arbitrary: s t)
  case Nil
  then show ?case by simp
next
  case (Cons stop stops)
  show ?case
  proof (cases "0 \<le> str_find s stop")
    case False
    with Cons.prems have rec: "trim_stops stops s t = (out, tr)" by (simp add: Let_def)
    from False have "str_find s stop < 0" by simp
    with trim_stops_prefix [OF rec] have "str_find out stop < 0"
      by (rule str_find_absent_prefix)
    with Cons.IH [OF rec] show ?thesis by simp
  next
    case True
    let ?s2 = "rstrip (take (nat (str_find s stop)) s)"
    from True Cons.prems have rec: "trim_stops stops ?s2 True = (out, tr)"
      by (simp add: Let_def py_slice_to_nat)
    have "prefix out ?s2" using rec by (rule trim_stops_prefix)
    also have "prefix ?s2 (take (nat (str_find s stop)) s)" by (rule rstrip_prefix)
    finally have "prefix out (take (nat (str_find s stop)) s)" .
    then have "stop \<noteq> [] \<longrightarrow> str_find out stop < 0"
      using str_find_before_first [OF True] by blast
    with Cons.IH [OF rec] show ?thesis by simp
  qed
qed


subsection \<open>One decoded output\<close>

lemma decode_one_causal:
  assumes "model_arch_type cfg \<noteq> ''seq2seq''"
    and "trim_stops stops
           (tok_decode tk (filter (\<lambda>t. Some t \<noteq> pad_token_id tk) (py_slice_from sample prompt_size)))
           False = (out, tr)"
    and "append_eos tk flag tr sample out = Inr res"
  shows "decode_one cfg tk stops flag prompt sample prompt_size =
           Inr (tok_decode tk (filter (\<lambda>t. Some t \<noteq> pad_token_id tk)
                  (py_slice_to prompt prompt_size)) @ res,
                tok_decode tk (filter (\<lambda>t. Some t \<noteq> pad_token_id tk)
                  (py_slice_to prompt prompt_size)),
                res)"
  using assms by (simp add: decode_one_def Let_def)

text \<open>
  Claim C4, as amended. Let \<open>out_text\<close> be the decoded output of a sample (tokens after
  the prompt, padding dropped) for a causal model and a tokenizer with an end marker.
  \<^item> When a configured stop string occurs in it, the returned output is \<open>out_text\<close> cut
    at the first occurrence of one of the configured stop strings and rstripped, followed
    by the end marker, appended once; the part before the marker holds no configured
    stop string that is not empty.
  \<^item> When none occurs and the last token of the sample is the end-of-sequence token, the
    returned output is \<open>out_text\<close>: nothing is appended.
  \<^item> When none occurs, the last token of the sample is not the end-of-sequence token
    and \<open>out_text\<close> does not hold the end marker, the marker is appended once.
\<close>

theorem decode_one_trimming:
  fixes tk :: tokenizer and sample prompt :: "int list" and prompt_size :: int
  defines "out_text \<equiv> tok_decode tk
             (filter (\<lambda>t. Some t \<noteq> pad_token_id tk) (py_slice_from sample prompt_size))"
    and "str_prompt \<equiv> tok_decode tk
             (filter (\<lambda>t. Some t \<noteq> pad_token_id tk) (py_slice_to prompt prompt_size))"
  assumes arch: "model_arch_type cfg \<noteq> ''seq2seq''"
    and eos: "eos_token tk = Some e"
  shows
    "((\<exists>stop \<in> set stops. 0 \<le> str_find out_text stop) \<longrightarrow>
        (\<exists>stop \<in> set stops. 0 \<le> str_find out_text stop
           \<and> decode_one cfg tk stops True prompt sample prompt_size =
               Inr (str_prompt @ rstrip (take (nat (str_find out_text stop)) out_text) @ e,
                    str_prompt,
                    rstrip (take (nat (str_find out_text stop)) out_text) @ e)
           \<and> (\<forall>s \<in> set stops. s \<noteq> [] \<longrightarrow>
                 str_find (rstrip (take (nat (str_find out_text stop)) out_text)) s < 0)))
     \<and> ((\<forall>stop \<in> set stops. str_find out_text stop < 0)
          \<and> sample \<noteq> [] \<and> Some (last sample) = eos_token_id tk \<longrightarrow>
        decode_one cfg tk stops True prompt sample prompt_size =
          Inr (str_prompt @ out_text, str_prompt, out_text))
     \<and> ((\<forall>stop \<in> set stops. str_find out_text stop < 0)
          \<and> sample \<noteq> [] \<and> Some (last sample) \<noteq> eos_token_id tk
          \<and> str_find out_text e < 0 \<longrightarrow>
        decode_one cfg tk stops True prompt sample prompt_size =
          Inr (str_prompt @ out_text @ e, str_prompt, out_text @ e))"
proof -
  have one: "\<exists>stop \<in> set stops. 0 \<le> str_find out_text stop
           \<and> decode_one cfg tk stops True prompt sample prompt_size =
               Inr (str_prompt @ rstrip (take (nat (str_find out_text stop)) out_text) @ e,
                    str_prompt,
                    rstrip (take (nat (str_find out_text stop)) out_text) @ e)
           \<and> (\<forall>s \<in> set stops. s \<noteq> [] \<longrightarrow>
                 str_find (rstrip (take (nat (str_find out_text stop)) out_text)) s < 0)"
    if occ: "\<exists>stop \<in> set stops. 0 \<le> str_find out_text stop"
  proof -
    obtain out tr where tr: "trim_stops stops out_text False = (out, tr)"
      by (cases "trim_stops stops out_text False")
    from trim_stops_trimmed [OF occ, of False] tr have t: "tr = True" by simp
    from trim_stops_result [of out_text out_text stops False out tr] tr t
    obtain stop where st: "stop \<in> set stops" and f: "0 \<le> str_find out_text stop"
      and out: "out = rstrip (take (nat (str_find out_text stop)) out_text)"
      by auto
    have "append_eos tk True tr sample out = Inr (out @ e)"
      by (simp add: append_eos_def t eos)
    from decode_one_causal [OF arch tr [unfolded out_text_def] this]
    have "decode_one cfg tk stops True prompt sample prompt_size =
            Inr (str_prompt @ out @ e, str_prompt, out @ e)"
      by (simp add: str_prompt_def)
    moreover from trim_stops_clean [OF tr]
    have "\<forall>s \<in> set stops. s \<noteq> [] \<longrightarrow> str_find out s < 0" .
    ultimately show ?thesis using st f unfolding out by blast
  qed
  have two: "decode_one cfg tk stops True prompt sample prompt_size =
          Inr (str_prompt @ out_text, str_prompt, out_text)"
    if none: "\<forall>stop \<in> set stops. str_find out_text stop < 0"
      and ne: "sample \<noteq> []" and last: "Some (last sample) = eos_token_id tk"
  proof -
    from trim_stops_none [OF none] have tr: "trim_stops stops out_text False = (out_text, False)" .
    have "append_eos tk True False sample out_text = Inr out_text"
      using ne last by (simp add: append_eos_def)
    from decode_one_causal [OF arch tr [unfolded out_text_def] this [unfolded out_text_def]]
    show ?thesis by (simp add: str_prompt_def out_text_def)
  qed
  have three: "decode_one cfg tk stops True prompt sample prompt_size =
          Inr (str_prompt @ out_text @ e, str_prompt, out_text @ e)"
    if none: "\<forall>stop \<in> set stops. str_find out_text stop < 0"
      and ne: "sample \<noteq> []" and last: "Some (last sample) \<noteq> eos_token_id tk"
  proof -
    from trim_stops_none [OF none] have tr: "trim_stops stops out_text False = (out_text, False)" .
    have "append_eos tk True False sample out_text = Inr (out_text @ e)"
      using ne last by (simp add: append_eos_def eos)
    from decode_one_causal [OF arch tr [unfolded out_text_def] this [unfolded out_text_def]]
    show ?thesis by (simp add: str_prompt_def out_text_def)
  qed
  from one two three show ?thesis by blast
qed


text \<open>
  The theorem with the character tokenizer and prompt \<open>pq\<close>: the output \<open>a ba$\<close> with
  stop string \<open>b\<close> is cut to \<open>a\<close> and gets the marker \<open>$\<close>; the output \<open>a$\<close> of a
  sample that ends with the end-of-sequence token is returned as it is; the output
  \<open>ab\<close> of a sample that was cut by the token limit gets the marker.
\<close>

theorem decode_one_trimming_witness:
  "decode_one causal_config char_tokenizer [''b''] True [7, 8] [7, 8, 5, 4, 6, 5, 2] 2
     = Inr (''pqa$'', ''pq'', ''a$'')
   \<and> decode_one causal_config char_tokenizer [''b''] True [7, 8] [7, 8, 5, 2] 2
     = Inr (''pqa$'', ''pq'', ''a$'')
   \<and> decode_one causal_config char_tokenizer [''b''] True [7, 8] [7, 8, 5, 5] 2
     = Inr (''pqaa$'', ''pq'', ''aa$'')"
proof -
  have arch: "model_arch_type causal_config \<noteq> ''seq2seq''"
    by (simp add: causal_config_def)
  have eos: "eos_token char_tokenizer = Some ''$''"
    by (simp add: char_tokenizer_def)
  have eid: "eos_token_id char_tokenizer = Some 2"
    by (simp add: char_tokenizer_def)
  have p: "tok_decode char_tokenizer
             (filter (\<lambda>t. Some t \<noteq> pad_token_id char_tokenizer) (py_slice_to [7, 8] 2)) = ''pq''"
    by code_simp
  have t1: "tok_decode char_tokenizer (filter (\<lambda>t. Some t \<noteq> pad_token_id char_tokenizer)
              (py_slice_from [7, 8, 5, 4, 6, 5, 2] 2)) = ''a ba$''"
    by code_simp
  have t2: "tok_decode char_tokenizer (filter (\<lambda>t. Some t \<noteq> pad_token_id char_tokenizer)
              (py_slice_from [7, 8, 5, 2] 2)) = ''a$''"
    by code_simp
  have t3: "tok_decode char_tokenizer (filter (\<lambda>t. Some t \<noteq> pad_token_id char_tokenizer)
              (py_slice_from [7, 8, 5, 5] 2)) = ''aa''"
    by code_simp
  have f1: "str_find ''a ba$'' ''b'' = 2" by code_simp
  have f2: "str_find ''a$'' ''b'' = - 1" by code_simp
  have f3: "str_find ''aa'' ''b'' = - 1" by code_simp
  have f4: "str_find ''aa'' ''$'' = - 1" by code_simp
  have r1: "rstrip ''a '' = ''a''" by code_simp
  have a: "decode_one causal_config char_tokenizer [''b''] True [7, 8] [7, 8, 5, 4, 6, 5, 2] 2
     = Inr (''pqa$'', ''pq'', ''a$'')"
    using decode_one_trimming [OF arch eos, where stops = "[''b'']" and prompt = "[7, 8]"
        and sample = "[7, 8, 5, 4, 6, 5, 2]" and prompt_size = 2, THEN conjunct1]
    unfolding p t1 by (simp add: f1 r1)
  have b: "decode_one causal_config char_tokenizer [''b''] True [7, 8] [7, 8, 5, 2] 2
     = Inr (''pqa$'', ''pq'', ''a$'')"
    using decode_one_trimming [OF arch eos, where stops = "[''b'']" and prompt = "[7, 8]"
        and sample = "[7, 8, 5, 2]" and prompt_size = 2, THEN conjunct2, THEN conjunct1]
    unfolding p t2 by (simp add: f2 eid)
  have c: "decode_one causal_config char_tokenizer [''b''] True [7, 8] [7, 8, 5, 5] 2
     = Inr (''pqaa$'', ''pq'', ''aa$'')"
    using decode_one_trimming [OF arch eos, where stops = "[''b'']" and prompt = "[7, 8]"
        and sample = "[7, 8, 5, 5]" and prompt_size = 2, THEN conjunct2, THEN conjunct2]
    unfolding p t3 by (simp add: f3 f4 eid)
  from a b c show ?thesis by (simp only: simp_thms)
qed

text \<open>
  Claim C4 as stated fails in two ways. With the stop strings \<open>b\<close> and \<open>ab\<close> the output
  \<open>ab$\<close> is cut at \<open>b\<close>, the first one configured, and becomes \<open>a$\<close>, although the stop
  string \<open>ab\<close> occurs earlier, at the start. And a sample that ends with the
  end-of-sequence token and padding decodes to \<open>a$\<close>, is not trimmed, and gets a second
  marker, because its last token is the padding token.
\<close>

theorem decode_one_trimming_counterexample:
  "decode causal_config char_tokenizer [''b'', ''ab''] [[7, 8]] [[7, 8, 5, 6, 2]] None True
     = Inr ([''pqa$''], [''pq''], [''a$''])
   \<and> str_find ''ab$'' ''ab'' = 0
   \<and> str_find ''ab$'' ''b'' = 1
   \<and> decode causal_config char_tokenizer [] [[7, 8]] [[7, 8, 5, 2, 0, 0]] None True
     = Inr ([''pqa$$''], [''pq''], [''a$$''])"
  by code_simp

section \<open>Properties of the sequence-to-sequence branches\<close>

lemma decode_one_seq2seq:
  "model_arch_type cfg = ''seq2seq'' \<Longrightarrow>
   decode_one cfg tk stops flag prompt sample prompt_size = Inl NotImplementedError"
  by (simp add: decode_one_def)

lemma decode_loop_seq2seq:
  assumes "model_arch_type cfg = ''seq2seq''"
  shows "decode_loop cfg tk stops flag zs acc =
           (if zs = [] then Inr acc else Inl NotImplementedError)"
proof (cases zs)
  case Nil
  then show ?thesis by simp
next
  case (Cons z rest)
  obtain p s k where "z = (p, s, k)" by (cases z)
  moreover obtain a b c where "acc = (a, b, c)" by (cases acc)
  ultimately show ?thesis
    using Cons decode_one_seq2seq [OF assms] by simp
qed

lemma decode_seq2seq:
  assumes "model_arch_type cfg = ''seq2seq''"
  shows "decode cfg tk stops prompts samples None True =
           (if prompts = [] \<or> samples = [] then Inr ([], [], [])
            else Inl NotImplementedError)"
    and "decode cfg tk stops prompts samples (Some sizes) True =
           (if prompts = [] \<or> samples = [] \<or> sizes = [] then Inr ([], [], [])
            else Inl NotImplementedError)"
proof -
  show "decode cfg tk stops prompts samples None True =
           (if prompts = [] \<or> samples = [] then Inr ([], [], [])
            else Inl NotImplementedError)"
    by (cases prompts; cases samples)
       (simp_all add: decode_def decode_loop_seq2seq [OF assms])
  show "decode cfg tk stops prompts samples (Some sizes) True =
           (if prompts = [] \<or> samples = [] \<or> sizes = [] then Inr ([], [], [])
            else Inl NotImplementedError)"
    by (cases prompts; cases samples; cases sizes)
       (simp_all add: decode_def decode_loop_seq2seq [OF assms])
qed

lemma rollout_iteration_seq2seq:
  assumes arch: "model_arch_type (config self) = ''seq2seq''"
    and batch: "input_ids (prompt_iterator ext (iterator_pos self)) \<noteq> []"
    and samples: "generate ext (prompt_iterator ext (iterator_pos self)) \<noteq> []"
  shows "rollout_iteration ext self = Inl NotImplementedError"
proof -
  have "rollout_scores ext self = Inl NotImplementedError"
    using batch samples
    by (simp add: rollout_scores_def Let_def decode_seq2seq(2) [OF arch])
  then show ?thesis by (simp add: rollout_iteration_def Let_def)
qed

text \<open>
  Claim C9, as amended. With the sequence-to-sequence architecture configured,
  \<^verbatim>\<open>get_arch\<close> and the forward-pass branch of the rollout raise the not-implemented
  error; \<^verbatim>\<open>decode\<close> raises it when there is an example to decode and returns three empty
  lists when there is none; and a rollout whose first batch is not empty raises it,
  so that nothing is pushed.
\<close>

theorem seq2seq_not_implemented:
  assumes arch: "model_arch_type cfg = ''seq2seq''"
  shows "get_arch cfg tk from_pretrained = Inl NotImplementedError
       \<and> (config self = cfg \<longrightarrow>
            forward_pass ext self prompt_tensors sample_outputs = Inl NotImplementedError)
       \<and> decode cfg tk stops prompts samples None True =
            (if prompts = [] \<or> samples = [] then Inr ([], [], [])
             else Inl NotImplementedError)
       \<and> decode cfg tk stops prompts samples (Some sizes) True =
            (if prompts = [] \<or> samples = [] \<or> sizes = [] then Inr ([], [], [])
             else Inl NotImplementedError)
       \<and> (config self = cfg
            \<and> input_ids (prompt_iterator ext (iterator_pos self)) \<noteq> []
            \<and> generate ext (prompt_iterator ext (iterator_pos self)) \<noteq> []
            \<and> 0 < n \<longrightarrow>
            make_experience ext n self = Some (Inl NotImplementedError))"
proof -
  have a: "get_arch cfg tk from_pretrained = Inl NotImplementedError"
    using arch by (simp add: get_arch_def)
  have b: "forward_pass ext self prompt_tensors sample_outputs = Inl NotImplementedError"
    if "config self = cfg"
    using arch that by (simp add: forward_pass_def)
  have e: "make_experience ext n self = Some (Inl NotImplementedError)"
    if c: "config self = cfg"
      and p: "input_ids (prompt_iterator ext (iterator_pos self)) \<noteq> []"
      and g: "generate ext (prompt_iterator ext (iterator_pos self)) \<noteq> []"
      and n: "0 < n"
  proof -
    from arch c have "model_arch_type (config self) = ''seq2seq''" by simp
    from rollout_iteration_seq2seq [OF this p g]
    have "rollout_loop ext n self [] False = Some (Inl NotImplementedError)"
      using n by (subst rollout_loop.simps) simp
    then show ?thesis by (simp add: make_experience_def)
  qed
  from a b decode_seq2seq [OF arch] e show ?thesis by blast
qed

theorem seq2seq_not_implemented_witness:
  "get_arch seq2seq_config char_tokenizer (\<lambda>tk. ()) = Inl NotImplementedError
   \<and> forward_pass toy (toy_trainer\<lparr>config := seq2seq_config\<rparr>) [[7, 8]] [[5, 2]]
       = Inl NotImplementedError
   \<and> decode seq2seq_config char_tokenizer [] [[7, 8]] [[7, 8, 5, 2]] None True
       = Inl NotImplementedError
   \<and> decode seq2seq_config char_tokenizer [] [[7, 8]] [[7, 8, 5, 2]] (Some [2]) True
       = Inl NotImplementedError
   \<and> make_experience toy 3 (toy_trainer\<lparr>config := seq2seq_config\<rparr>)
       = Some (Inl NotImplementedError)"
proof -
  have arch: "model_arch_type seq2seq_config = ''seq2seq''"
    by (simp add: seq2seq_config_def)
  let ?self = "toy_trainer\<lparr>config := seq2seq_config\<rparr>"
  note inst = seq2seq_not_implemented [OF arch, where tk = char_tokenizer
      and from_pretrained = "\<lambda>tk. ()" and self = ?self and ext = toy
      and prompt_tensors = "[[7, 8]]" and sample_outputs = "[[5, 2]]" and stops = "[]"
      and prompts = "[[7, 8]]" and samples = "[[7, 8, 5, 2]]" and sizes = "[2]" and n = 3]
  from inst show ?thesis
    by (simp add: toy_def)
qed

text \<open>
  Claim C9 as stated fails for \<^verbatim>\<open>decode\<close> on a batch without examples: the test of the
  architecture is inside the loop, which does not run.
\<close>

theorem seq2seq_not_implemented_counterexample:
  "decode seq2seq_config char_tokenizer [] [] [] None True = Inr ([], [], [])"
  by (simp add: decode_def)

section \<open>Properties of the constructor\<close>

lemma trainer_init_Inr:
  assumes "trainer_init add_special_tokens base_init environ loaded cfg = Inr self"
  obtains cl where "triton_server_ref_model environ = Inr cl"
    and "self = (base_init cfg (init_tokenizer add_special_tokens loaded))\<lparr>ref_client := cl\<rparr>"
  using assms unfolding trainer_init_def Let_def
  by (auto split: sum.splits)

lemma init_tokenizer_differs:
  assumes "pad_token_id loaded = eos_token_id loaded \<longrightarrow>
             pad_token_id (add_special_tokens ''<|padding|>'' loaded)
               \<noteq> eos_token_id (add_special_tokens ''<|padding|>'' loaded)"
  shows "pad_token_id (init_tokenizer add_special_tokens loaded)
           \<noteq> eos_token_id (init_tokenizer add_special_tokens loaded)"
  using assms by (simp add: init_tokenizer_def)

lemma decode_one_untrimmed:
  assumes arch: "model_arch_type cfg \<noteq> ''seq2seq''"
    and sample: "sample \<noteq> []"
    and last: "eos_token_id tk = Some (last sample)"
  shows "decode_one cfg tk [] True prompt sample prompt_size =
           Inr (tok_decode tk (filter (\<lambda>t. Some t \<noteq> pad_token_id tk)
                  (py_slice_to prompt prompt_size))
                @ tok_decode tk (filter (\<lambda>t. Some t \<noteq> pad_token_id tk)
                    (py_slice_from sample prompt_size)),
                tok_decode tk (filter (\<lambda>t. Some t \<noteq> pad_token_id tk)
                  (py_slice_to prompt prompt_size)),
                tok_decode tk (filter (\<lambda>t. Some t \<noteq> pad_token_id tk)
                  (py_slice_from sample prompt_size)))"
proof (rule decode_one_causal [OF arch])
  show "trim_stops []
          (tok_decode tk (filter (\<lambda>t. Some t \<noteq> pad_token_id tk)
             (py_slice_from sample prompt_size))) False
        = (tok_decode tk (filter (\<lambda>t. Some t \<noteq> pad_token_id tk)
             (py_slice_from sample prompt_size)), False)"
    by simp
  show "append_eos tk True False sample
          (tok_decode tk (filter (\<lambda>t. Some t \<noteq> pad_token_id tk)
             (py_slice_from sample prompt_size)))
        = Inr (tok_decode tk (filter (\<lambda>t. Some t \<noteq> pad_token_id tk)
             (py_slice_from sample prompt_size)))"
    using sample last by (simp add: append_eos_def)
qed

lemma filter_pad_keeps:
  assumes "pad_token_id tk \<noteq> Some e"
  shows "filter (\<lambda>t. t = e) (filter (\<lambda>t. Some t \<noteq> pad_token_id tk) xs) = filter (\<lambda>t. t = e) xs"
proof -
  have "(\<lambda>t. Some t \<noteq> pad_token_id tk \<and> t = e) = (\<lambda>t. t = e)"
    using assms by auto
  then show ?thesis by simp
qed

lemma filter_pad_drops:
  assumes "pad_token_id tk = Some e"
  shows "e \<notin> set (filter (\<lambda>t. Some t \<noteq> pad_token_id tk) xs)"
  using assms by simp

lemma forward_pass_mask:
  assumes run: "forward_pass ext self prompt_tensors sample_outputs
                  = Inr (all_tokens, msk, logits, model_values, ref_logits)"
    and i: "i < length all_tokens" and j: "j < length (all_tokens ! i)"
  shows "msk ! i ! j = (if Some (all_tokens ! i ! j) \<noteq> pad_token_id (tokenizer self) then 1 else 0)"
proof -
  from run obtain pad where pad: "pad_token_id (tokenizer self) = Some pad"
    and m: "msk = map (map (\<lambda>t. if t \<noteq> pad then 1 else 0)) all_tokens"
    by (rule forward_pass_Inr)
  from m i j show ?thesis by (simp add: pad)
qed


text \<open>
  Claim C10. The constructor calls two pieces of code that are not part of the module:
  the library call \<^verbatim>\<open>add_special_tokens\<close> and the constructor of the base class. Let the
  library call give the added token an id that is not the end-of-sequence id, let the
  base constructor keep the tokenizer it finds, and let the constructor return \<open>self\<close>.
  \<^item> The tokenizer of \<open>self\<close> is the loaded one, with the token \<^verbatim>\<open><|padding|>\<close> added
    as its padding token exactly when the loaded padding id and end-of-sequence id were
    equal, and its padding id differs from its end-of-sequence id.
  \<^item> \<^verbatim>\<open>decode\<close> with that tokenizer hands every end-of-sequence token of the response to
    the tokenizer; with the loaded tokenizer, when its two ids are equal, it hands none.
  \<^item> The attention mask of the forward pass is 1 at every end-of-sequence token; with
    the loaded tokenizer, when its two ids are equal, it is 0 there.
\<close>

theorem pad_differs_from_eos:
  fixes loaded :: tokenizer and self :: "'rm trainer" and e :: int
  assumes built: "trainer_init add_special_tokens base_init environ loaded cfg = Inr self"
    and lib: "pad_token_id loaded = eos_token_id loaded \<longrightarrow>
                pad_token_id (add_special_tokens ''<|padding|>'' loaded)
                  \<noteq> eos_token_id (add_special_tokens ''<|padding|>'' loaded)"
    and base: "tokenizer (base_init cfg (init_tokenizer add_special_tokens loaded))
                 = init_tokenizer add_special_tokens loaded"
  defines "kept \<equiv> \<lambda>tk (xs :: int list). filter (\<lambda>t. Some t \<noteq> pad_token_id tk) xs"
  shows "tokenizer self =
           (if pad_token_id loaded = eos_token_id loaded
            then add_special_tokens ''<|padding|>'' loaded else loaded)
       \<and> pad_token_id (tokenizer self) \<noteq> eos_token_id (tokenizer self)
       \<and> (model_arch_type c \<noteq> ''seq2seq'' \<and> sample \<noteq> []
            \<and> eos_token_id (tokenizer self) = Some (last sample) \<longrightarrow>
            decode_one c (tokenizer self) [] True prompt sample k =
              Inr (tok_decode (tokenizer self) (kept (tokenizer self) (py_slice_to prompt k))
                     @ tok_decode (tokenizer self)
                         (kept (tokenizer self) (py_slice_from sample k)),
                   tok_decode (tokenizer self) (kept (tokenizer self) (py_slice_to prompt k)),
                   tok_decode (tokenizer self) (kept (tokenizer self) (py_slice_from sample k)))
            \<and> filter (\<lambda>t. t = last sample) (kept (tokenizer self) (py_slice_from sample k))
                = filter (\<lambda>t. t = last sample) (py_slice_from sample k))
       \<and> (pad_token_id loaded = eos_token_id loaded
            \<and> model_arch_type c \<noteq> ''seq2seq'' \<and> sample \<noteq> []
            \<and> eos_token_id loaded = Some (last sample) \<longrightarrow>
            decode_one c loaded [] True prompt sample k =
              Inr (tok_decode loaded (kept loaded (py_slice_to prompt k))
                     @ tok_decode loaded (kept loaded (py_slice_from sample k)),
                   tok_decode loaded (kept loaded (py_slice_to prompt k)),
                   tok_decode loaded (kept loaded (py_slice_from sample k)))
            \<and> last sample \<notin> set (kept loaded (py_slice_from sample k)))
       \<and> (forward_pass ext self prompt_tensors sample_outputs
              = Inr (all_tokens, msk, logits, model_values, ref_logits)
            \<and> i < length all_tokens \<and> j < length (all_tokens ! i)
            \<and> eos_token_id (tokenizer self) = Some (all_tokens ! i ! j) \<longrightarrow>
            msk ! i ! j = 1)
       \<and> (pad_token_id loaded = eos_token_id loaded
            \<and> forward_pass ext (self\<lparr>tokenizer := loaded\<rparr>) prompt_tensors sample_outputs
                = Inr (all_tokens, msk0, logits0, model_values0, ref_logits0)
            \<and> i < length all_tokens \<and> j < length (all_tokens ! i)
            \<and> eos_token_id loaded = Some (all_tokens ! i ! j) \<longrightarrow>
            msk0 ! i ! j = 0)"
proof -
  from built obtain cl where
    self: "self = (base_init cfg (init_tokenizer add_special_tokens loaded))\<lparr>ref_client := cl\<rparr>"
    by (rule trainer_init_Inr)
  from self base have tk: "tokenizer self = init_tokenizer add_special_tokens loaded"
    by simp
  have one: "tokenizer self =
           (if pad_token_id loaded = eos_token_id loaded
            then add_special_tokens ''<|padding|>'' loaded else loaded)"
    unfolding tk by (simp add: init_tokenizer_def)
  have two: "pad_token_id (tokenizer self) \<noteq> eos_token_id (tokenizer self)"
    unfolding tk using lib by (rule init_tokenizer_differs)
  have three: "decode_one c (tokenizer self) [] True prompt sample k =
              Inr (tok_decode (tokenizer self) (kept (tokenizer self) (py_slice_to prompt k))
                     @ tok_decode (tokenizer self)
                         (kept (tokenizer self) (py_slice_from sample k)),
                   tok_decode (tokenizer self) (kept (tokenizer self) (py_slice_to prompt k)),
                   tok_decode (tokenizer self) (kept (tokenizer self) (py_slice_from sample k)))
            \<and> filter (\<lambda>t. t = last sample) (kept (tokenizer self) (py_slice_from sample k))
                = filter (\<lambda>t. t = last sample) (py_slice_from sample k)"
    if arch: "model_arch_type c \<noteq> ''seq2seq''" and ne: "sample \<noteq> []"
      and eos: "eos_token_id (tokenizer self) = Some (last sample)"
  proof -
    from two eos have "pad_token_id (tokenizer self) \<noteq> Some (last sample)" by simp
    from filter_pad_keeps [OF this] decode_one_untrimmed [OF arch ne eos]
    show ?thesis unfolding kept_def by simp
  qed
  have four: "decode_one c loaded [] True prompt sample k =
              Inr (tok_decode loaded (kept loaded (py_slice_to prompt k))
                     @ tok_decode loaded (kept loaded (py_slice_from sample k)),
                   tok_decode loaded (kept loaded (py_slice_to prompt k)),
                   tok_decode loaded (kept loaded (py_slice_from sample k)))
            \<and> last sample \<notin> set (kept loaded (py_slice_from sample k))"
    if same: "pad_token_id loaded = eos_token_id loaded"
      and arch: "model_arch_type c \<noteq> ''seq2seq''" and ne: "sample \<noteq> []"
      and eos: "eos_token_id loaded = Some (last sample)"
  proof -
    from same eos have "pad_token_id loaded = Some (last sample)" by simp
    from filter_pad_drops [OF this] decode_one_untrimmed [OF arch ne eos]
    show ?thesis unfolding kept_def by simp
  qed
  have five: "msk ! i ! j = 1"
    if run: "forward_pass ext self prompt_tensors sample_outputs
               = Inr (all_tokens, msk, logits, model_values, ref_logits)"
      and i: "i < length all_tokens" and j: "j < length (all_tokens ! i)"
      and eos: "eos_token_id (tokenizer self) = Some (all_tokens ! i ! j)"
  proof -
    from two eos have "Some (all_tokens ! i ! j) \<noteq> pad_token_id (tokenizer self)" by simp
    with forward_pass_mask [OF run i j] show ?thesis by simp
  qed
  have six: "msk0 ! i ! j = 0"
    if same: "pad_token_id loaded = eos_token_id loaded"
      and run: "forward_pass ext (self\<lparr>tokenizer := loaded\<rparr>) prompt_tensors sample_outputs
                = Inr (all_tokens, msk0, logits0, model_values0, ref_logits0)"
      and i: "i < length all_tokens" and j: "j < length (all_tokens ! i)"
      and eos: "eos_token_id loaded = Some (all_tokens ! i ! j)"
  proof -
    from same eos have "Some (all_tokens ! i ! j) = pad_token_id (tokenizer (self\<lparr>tokenizer := loaded\<rparr>))"
      by simp
    with forward_pass_mask [OF run i j] show ?thesis by simp
  qed
  from one two three four five six show ?thesis by blast
qed


theorem pad_differs_from_eos_witness:
  "trainer_init add_pad_token keep_tokenizer [''TRITON_HOST_REF'' \<mapsto> ''localhost:8001/ref'']
       shared_pad_tokenizer causal_config
     = Inr ((keep_tokenizer causal_config (add_pad_token ''<|padding|>'' shared_pad_tokenizer))
              \<lparr>ref_client := local_client\<rparr>)
   \<and> pad_token_id shared_pad_tokenizer = Some 2
   \<and> eos_token_id shared_pad_tokenizer = Some 2
   \<and> pad_token_id (add_pad_token ''<|padding|>'' shared_pad_tokenizer) = Some 10
   \<and> eos_token_id (add_pad_token ''<|padding|>'' shared_pad_tokenizer) = Some 2
   \<and> decode_one causal_config (add_pad_token ''<|padding|>'' shared_pad_tokenizer) [] True
         [7, 8] [7, 8, 5, 2] 2 = Inr (''pqa$'', ''pq'', ''a$'')
   \<and> decode_one causal_config shared_pad_tokenizer [] True
         [7, 8] [7, 8, 5, 2] 2 = Inr (''pqa'', ''pq'', ''a'')
   \<and> (\<exists>lg vs rl.
         forward_pass toy
           ((keep_tokenizer causal_config (add_pad_token ''<|padding|>'' shared_pad_tokenizer))
              \<lparr>ref_client := local_client\<rparr>) [[7, 8]] [[5, 2]]
         = Inr ([[7, 8, 5, 2]], [[1, 1, 1, 1]], lg, vs, rl))
   \<and> (\<exists>lg vs rl.
         forward_pass toy
           ((keep_tokenizer causal_config (add_pad_token ''<|padding|>'' shared_pad_tokenizer))
              \<lparr>ref_client := local_client, tokenizer := shared_pad_tokenizer\<rparr>) [[7, 8]] [[5, 2]]
         = Inr ([[7, 8, 5, 2]], [[1, 1, 1, 0]], lg, vs, rl))"
proof -
  let ?new = "add_pad_token ''<|padding|>'' shared_pad_tokenizer"
  let ?self = "(keep_tokenizer causal_config ?new)\<lparr>ref_client := local_client\<rparr>"
  let ?old = "?self\<lparr>tokenizer := shared_pad_tokenizer\<rparr>"
  have scorer: "triton_server_ref_model [''TRITON_HOST_REF'' \<mapsto> ''localhost:8001/ref'']
                  = Inr local_client"
    by (simp add: triton_server_ref_model_def local_client_def)
  have ids: "pad_token_id shared_pad_tokenizer = Some 2"
    "eos_token_id shared_pad_tokenizer = Some 2"
    "pad_token_id ?new = Some 10" "eos_token_id ?new = Some 2"
    by (simp_all add: shared_pad_tokenizer_def char_tokenizer_def add_pad_token_def)
  have built: "trainer_init add_pad_token keep_tokenizer
                 [''TRITON_HOST_REF'' \<mapsto> ''localhost:8001/ref''] shared_pad_tokenizer causal_config
               = Inr ?self"
    by (simp add: trainer_init_def init_tokenizer_def ids scorer)
  have lib: "pad_token_id shared_pad_tokenizer = eos_token_id shared_pad_tokenizer \<longrightarrow>
               pad_token_id ?new \<noteq> eos_token_id ?new"
    by (simp add: ids)
  have base: "tokenizer (keep_tokenizer causal_config (init_tokenizer add_pad_token shared_pad_tokenizer))
                = init_tokenizer add_pad_token shared_pad_tokenizer"
    by (simp add: keep_tokenizer_def)
  have tk: "tokenizer ?self = ?new"
    by (simp add: keep_tokenizer_def)
  have arch: "model_arch_type causal_config \<noteq> ''seq2seq''"
    by (simp add: causal_config_def)
  have new_run: "map_sum id (\<lambda>(toks, m, lg, vs, rl). (toks, m))
                   (forward_pass toy ?self [[7, 8]] [[5, 2]])
                 = Inr ([[7, 8, 5, 2]], [[1, 1, 1, 1]])"
    by code_simp
  then obtain lg vs rl where
    run: "forward_pass toy ?self [[7, 8]] [[5, 2]] = Inr ([[7, 8, 5, 2]], [[1, 1, 1, 1]], lg, vs, rl)"
    by (cases "forward_pass toy ?self [[7, 8]] [[5, 2]]") auto
  have "map_sum id (\<lambda>(toks, m, lg, vs, rl). (toks, m))
          (forward_pass toy ?old [[7, 8]] [[5, 2]])
        = Inr ([[7, 8, 5, 2]], [[1, 1, 1, 0]])"
    by code_simp
  then obtain lg0 vs0 rl0 where
    run0: "forward_pass toy ?old [[7, 8]] [[5, 2]] = Inr ([[7, 8, 5, 2]], [[1, 1, 1, 0]], lg0, vs0, rl0)"
    by (cases "forward_pass toy ?old [[7, 8]] [[5, 2]]") auto
  have slices: "py_slice_to [7, 8] 2 = [7, 8 :: int]" "py_slice_from [7, 8, 5, 2] 2 = [5, 2 :: int]"
    by code_simp+
  have texts: "tok_decode ?new [7, 8] = ''pq''" "tok_decode ?new [5, 2] = ''a$''"
    "tok_decode shared_pad_tokenizer [7, 8] = ''pq''" "tok_decode shared_pad_tokenizer [5] = ''a''"
    by (simp_all add: shared_pad_tokenizer_def char_tokenizer_def add_pad_token_def tok_char_def)
  note inst = pad_differs_from_eos [OF built lib base, where c = causal_config
      and sample = "[7, 8, 5, 2]" and prompt = "[7, 8]" and k = 2 and ext = toy
      and prompt_tensors = "[[7, 8]]" and sample_outputs = "[[5, 2]]"
      and all_tokens = "[[7, 8, 5, 2]]" and msk = "[[1, 1, 1, 1]]" and logits = lg
      and model_values = vs and ref_logits = rl and i = 0 and j = 3
      and ?msk0.0 = "[[1, 1, 1, 0]]" and ?logits0.0 = lg0 and ?model_values0.0 = vs0
      and ?ref_logits0.0 = rl0]
  have d1: "decode_one causal_config ?new [] True [7, 8] [7, 8, 5, 2] 2
              = Inr (''pqa$'', ''pq'', ''a$'')"
    using inst arch by (simp add: tk ids slices texts)
  have d2: "decode_one causal_config shared_pad_tokenizer [] True [7, 8] [7, 8, 5, 2] 2
              = Inr (''pqa'', ''pq'', ''a'')"
    using inst arch by (simp add: tk ids slices texts)
  from built ids d1 d2 run run0 show ?thesis by blast
qed

end
